theory Spec2Isabelle
  imports Main "HOL-Library.Char_ord" "HOL-Library.List_Lexorder"
begin

section \<open>Data model\<close>

text \<open>
  The internal report model of package \<open>report\<close> and the public entry model of package
  \<open>osv\<close>, restricted to the fields that the functions embedded below read or write.
  Go strings are \<open>string\<close>; slices are lists (a nil slice and an empty slice are both
  \<open>[]\<close>); pointers to structs are the structs themselves (reports are read from files, so
  no two entries of a slice alias each other). Field names that occur in two structs
  are written qualified, as Go writes them with their package.
\<close>

text \<open>
  A Go \<open>error\<close> value. \<open>Error\<close> is an error returned by a collaborator;
  \<open>PackageError p e\<close> is \<open>fmt.Errorf("package %s: %w", p, e)\<close> (fix.go line 183);
  \<open>ManualReview id\<close> is
  \<open>fmt.Errorf("%s: could not fix all errors; requires manual review", id)\<close> (line 78).
\<close>

datatype error = Error string | PackageError string error | ManualReview string

record VersionRange =
  Introduced :: string
  Fixed :: string

record Package =
  Package :: string
  GOOS :: "string list"
  GOARCH :: "string list"
  Symbols :: "string list"
  DerivedSymbols :: "string list"
  ExcludedSymbols :: "string list"
  SkipFix :: string

record Module =
  Module :: string
  Versions :: "VersionRange list"
  VulnerableAt :: string
  Packages :: "Package list"

record Reference =
  Type :: string
  URL :: string

record CVEMeta =
  ID :: string
  CWE :: string

text \<open>
  The message of one \<open>fixErr\<close> call of \<open>fixer.fix\<close>: the format string (by its place in
  the source) with its arguments, not rendered.
\<close>

datatype fixMsg =
  PackageOrSymbolError error
  | MayNotExist string error
  | MayNotExistStatus string string

datatype Note = NoteTypeFix fixMsg | NoteTypeLint string

record Report =
  ID :: string
  Modules :: "Module list"
  Description :: string
  Credits :: "string list"
  References :: "Reference list"
  CVEs :: "string list"
  CVEMetadata :: "CVEMeta option"
  Notes :: "Note list"

datatype osv_RangeType = RangeTypeSemver

datatype osv_Ecosystem = GoEcosystem

record osv_RangeEvent =
  Introduced :: string
  Fixed :: string

record osv_Range =
  Type :: osv_RangeType
  Events :: "osv_RangeEvent list"

record osv_Package =
  Path :: string
  GOOS :: "string list"
  GOARCH :: "string list"
  Symbols :: "string list"

record osv_Module =
  Path :: string
  Ecosystem :: osv_Ecosystem

record osv_EcosystemSpecific =
  Packages :: "osv_Package list"

record osv_Affected =
  Module :: osv_Module
  Ranges :: "osv_Range list"
  EcosystemSpecific :: "osv_EcosystemSpecific option"


section \<open>Range Builder: \<open>AffectedRanges\<close>\<close>

text \<open>
  In \<open>osv.RangeEvent{Introduced: s}\<close> and \<open>osv.RangeEvent{Fixed: s}\<close> the field that is not
  given is the empty string.
\<close>

text \<open>The body of the loop of \<open>AffectedRanges\<close> (README.md lines 376-383), for one range.\<close>

definition AffectedRanges_step :: "osv_Range \<Rightarrow> VersionRange \<Rightarrow> osv_Range" where
  "AffectedRanges_step a v =
     (let a1 = (if VersionRange.Introduced v \<noteq> ''''
                then a\<lparr>Events := Events a
                        @ [\<lparr>osv_RangeEvent.Introduced = VersionRange.Introduced v, osv_RangeEvent.Fixed = ''''\<rparr>]\<rparr>
                else a)
      in if VersionRange.Fixed v \<noteq> ''''
         then a1\<lparr>Events := Events a1
                  @ [\<lparr>osv_RangeEvent.Introduced = '''', osv_RangeEvent.Fixed = VersionRange.Fixed v\<rparr>]\<rparr>
         else a1)"

definition AffectedRanges :: "VersionRange list \<Rightarrow> osv_Range list" where
  "AffectedRanges versions =
     (let a = \<lparr>osv_Range.Type = RangeTypeSemver, Events = []\<rparr>;
          a0 = (if length versions = 0 \<or> VersionRange.Introduced (versions ! 0) = ''''
                then a\<lparr>Events := Events a
                        @ [\<lparr>osv_RangeEvent.Introduced = ''0'', osv_RangeEvent.Fixed = ''''\<rparr>]\<rparr>
                else a)
      in [foldl AffectedRanges_step a0 versions])"


section \<open>Entry Generator: \<open>trimWhitespace\<close>, \<open>generateImports\<close>, \<open>generateAffected\<close>\<close>

text \<open>
  A text is the list of its code points, of which \<open>char\<close> has U+0000 to U+00FF.
  \<open>unicode.IsSpace\<close> on that range is tab, newline, vertical tab, form feed, carriage
  return, space, U+0085 and U+00A0; \<open>strings.TrimSpace\<close> removes such code points from
  both ends.
\<close>

definition unicode_IsSpace :: "char \<Rightarrow> bool" where
  "unicode_IsSpace c =
     (c \<in> set [CHR 0x09, CHR 0x0A, CHR 0x0B, CHR 0x0C, CHR 0x0D, CHR 0x20, CHR 0x85, CHR 0xA0])"

definition strings_TrimSpace :: "string \<Rightarrow> string" where
  "strings_TrimSpace s =
     rev (dropWhile unicode_IsSpace (rev (dropWhile unicode_IsSpace s)))"

text \<open>
  \<open>regexp.MustCompile(`([^\n])\n([^\n])`).ReplaceAllString(s, "$1 $2")\<close>. Every match
  is three code points long; matches are found from the left and do not overlap: after
  a match the search goes on behind its third code point.
\<close>

fun newlines_ReplaceAllString :: "string \<Rightarrow> string" where
  "newlines_ReplaceAllString (a # b # c # s) =
     (if a \<noteq> CHR 0x0A \<and> b = CHR 0x0A \<and> c \<noteq> CHR 0x0A
      then a # CHR '' '' # c # newlines_ReplaceAllString s
      else a # newlines_ReplaceAllString (b # c # s))"
| "newlines_ReplaceAllString s = s"

text \<open>The class \<open>\s\<close> of Go's regular expressions: \<open>[\t\n\f\r ]\<close>.\<close>

definition re_space :: "char \<Rightarrow> bool" where
  "re_space c = (c \<in> set [CHR 0x09, CHR 0x0A, CHR 0x0C, CHR 0x0D, CHR 0x20])"

fun has_double_newline :: "string \<Rightarrow> bool" where
  "has_double_newline (a # b # s) = (a = CHR 0x0A \<and> b = CHR 0x0A \<or> has_double_newline (b # s))"
| "has_double_newline s = False"

text \<open>
  \<open>regexp.MustCompile(`\s*\n\n\s*`).ReplaceAllString(s, "\n\n")\<close>. A match consists of
  \<open>\s\<close> code points only and both \<open>\s*\<close> are greedy, so the matches are exactly the
  maximal runs of \<open>\s\<close> code points that contain two adjacent newlines, each matched as
  a whole.
\<close>

function paragraphs_ReplaceAllString :: "string \<Rightarrow> string" where
  "paragraphs_ReplaceAllString [] = []"
| "paragraphs_ReplaceAllString (c # s) =
     (if re_space c
      then (if has_double_newline (c # takeWhile re_space s)
            then [CHR 0x0A, CHR 0x0A] else c # takeWhile re_space s)
           @ paragraphs_ReplaceAllString (dropWhile re_space s)
      else c # paragraphs_ReplaceAllString s)"
  by pat_completeness auto
termination
  by (relation "measure length") (auto simp: le_imp_less_Suc length_dropWhile_le)

text \<open>
  \<open>regexp.MustCompile(`[ \t]+`).ReplaceAllString(s, " ")\<close>: every maximal run of spaces
  and tabs becomes one space.
\<close>

definition space_or_tab :: "char \<Rightarrow> bool" where
  "space_or_tab c = (c = CHR '' '' \<or> c = CHR 0x09)"

function spaces_ReplaceAllString :: "string \<Rightarrow> string" where
  "spaces_ReplaceAllString [] = []"
| "spaces_ReplaceAllString (c # s) =
     (if space_or_tab c
      then CHR '' '' # spaces_ReplaceAllString (dropWhile space_or_tab s)
      else c # spaces_ReplaceAllString s)"
  by pat_completeness auto
termination
  by (relation "measure length") (auto simp: le_imp_less_Suc length_dropWhile_le)

definition trimWhitespace :: "string \<Rightarrow> string" where
  "trimWhitespace s =
     (let s1 = strings_TrimSpace s;
          s2 = newlines_ReplaceAllString s1;
          s3 = paragraphs_ReplaceAllString s2;
          s4 = spaces_ReplaceAllString s3
      in s4)"

text \<open>
  Constants and functions of the packages \<open>stdlib\<close>, \<open>osv\<close> and \<open>report\<close> that the
  functions below use and whose declarations are in other files: they are parameters.
\<close>

record extern =
  stdlib_ModulePath :: string
  stdlib_ToolchainModulePath :: string
  osv_GoStdModulePath :: string
  osv_GoCmdModulePath :: string
  stdlib_Contains :: "string \<Rightarrow> bool"
  stdlib_IsStdModule :: "string \<Rightarrow> bool"
  stdlib_IsCmdModule :: "string \<Rightarrow> bool"
  stdlib_IsXModule :: "string \<Rightarrow> bool"
  referenceFromUrl :: "string \<Rightarrow> Reference"

text \<open>\<open>sort.Strings\<close> orders strings bytewise, which is the lexicographic order of lists.\<close>

definition generateImports :: "Module \<Rightarrow> osv_Package list" where
  "generateImports m =
     map (\<lambda>p. \<lparr>osv_Package.Path = Package p,
                osv_Package.GOOS = Package.GOOS p,
                osv_Package.GOARCH = Package.GOARCH p,
                osv_Package.Symbols = sort ([] @ Package.Symbols p @ DerivedSymbols p)\<rparr>)
         (Module.Packages m)"

definition generateAffected :: "extern \<Rightarrow> Module \<Rightarrow> osv_Affected" where
  "generateAffected x m =
     (let name = Module.Module m;
          name = (if name = stdlib_ModulePath x then osv_GoStdModulePath x
                  else if name = stdlib_ToolchainModulePath x then osv_GoCmdModulePath x
                  else name)
      in \<lparr>osv_Affected.Module = \<lparr>osv_Module.Path = name, Ecosystem = GoEcosystem\<rparr>,
          Ranges = AffectedRanges (Versions m),
          EcosystemSpecific = Some \<lparr>osv_EcosystemSpecific.Packages = generateImports m\<rparr>\<rparr>)"


section \<open>Schema Converter: \<open>cveToReport\<close>, \<open>cve5ToReport\<close>\<close>

text \<open>
  A CVE record of schema version 4, by the fields that \<open>cveToReport\<close> reads:
  \<open>c.Metadata.ID\<close>; the \<open>Value\<close> of each entry of \<open>c.Description.Data\<close>; the \<open>URL\<close> of
  each entry of \<open>c.References.Data\<close>; the \<open>Value\<close> of each entry of
  \<open>c.Credit.Data.Description.Data\<close>; and, for each entry of \<open>c.Affects.Vendor.Data\<close>, the
  \<open>ProductName\<close> of each entry of its \<open>Product.Data\<close>.
\<close>

record cveschema_CVE =
  Metadata_ID :: string
  Description_Data :: "string list"
  References_Data :: "string list"
  Credit_Data :: "string list"
  Affects_Vendor_Data :: "string list list"

record cveschema5_Description =
  Lang :: string
  Value :: string

text \<open>
  A CVE record of schema version 5, by the fields that \<open>cve5ToReport\<close> reads:
  \<open>c.Metadata.ID\<close> and, of \<open>c.Containers.CNAContainer\<close>, the descriptions, the \<open>Value\<close>
  of each credit, the \<open>URL\<close> of each reference and the \<open>Product\<close> of each affected block.
\<close>

record cveschema5_CVERecord =
  Metadata_ID :: string
  Descriptions :: "cveschema5_Description list"
  Credits :: "string list"
  References :: "string list"
  Affected :: "string list"

definition addCVE :: "extern \<Rightarrow> Report \<Rightarrow> string \<Rightarrow> string \<Rightarrow> Report" where
  "addCVE x r cveID modulePath =
     (if stdlib_IsStdModule x modulePath \<or> stdlib_IsCmdModule x modulePath
         \<or> stdlib_IsXModule x modulePath
      then r\<lparr>CVEMetadata := Some \<lparr>CVEMeta.ID = cveID, CWE = ''TODO''\<rparr>\<rparr>
      else r\<lparr>CVEs := CVEs r @ [cveID]\<rparr>)"

text \<open>\<open>&Module{Module: m, Packages: []*Package{{Package: p}}}\<close>: all other fields are zero.\<close>

definition new_Module :: "string \<Rightarrow> string \<Rightarrow> Module" where
  "new_Module modulePath pkgPath =
     \<lparr>Module.Module = modulePath, Versions = [], VulnerableAt = '''',
      Module.Packages =
        [\<lparr>Package = pkgPath, Package.GOOS = [], Package.GOARCH = [], Package.Symbols = [],
          DerivedSymbols = [], ExcludedSymbols = [], SkipFix = ''''\<rparr>]\<rparr>"

definition cveToReport :: "extern \<Rightarrow> cveschema_CVE \<Rightarrow> string \<Rightarrow> string \<Rightarrow> Report" where
  "cveToReport x c id' modulePath =
     (let description = foldl (\<lambda>d v. d @ (v @ [CHR 0x0A])) '''' (Description_Data c);
          refs = foldl (\<lambda>rs u. rs @ [referenceFromUrl x u]) [] (cveschema_CVE.References_Data c);
          credits = foldl (\<lambda>cs v. cs @ [v]) [] (Credit_Data c);
          pkgPath = (case Affects_Vendor_Data c of [] \<Rightarrow> ''''
                     | data2 # _ \<Rightarrow> (case data2 of [] \<Rightarrow> '''' | n # _ \<Rightarrow> n));
          (pkgPath, modulePath) =
            (if stdlib_Contains x modulePath then (modulePath, stdlib_ModulePath x)
             else (pkgPath, modulePath));
          modulePath = (if modulePath = '''' then ''TODO'' else modulePath);
          pkgPath = (if pkgPath = '''' then modulePath else pkgPath);
          r = \<lparr>Report.ID = id', Modules = [new_Module modulePath pkgPath],
               Description = description, Report.Credits = credits,
               Report.References = refs, CVEs = [], CVEMetadata = None, Notes = []\<rparr>
      in addCVE x r (cveschema_CVE.Metadata_ID c) modulePath)"

definition cve5ToReport :: "extern \<Rightarrow> cveschema5_CVERecord \<Rightarrow> string \<Rightarrow> string \<Rightarrow> Report" where
  "cve5ToReport x c id' modulePath =
     (let description =
            foldl (\<lambda>d e. if Lang e = ''en'' then d @ (Value e @ [CHR 0x0A]) else d) ''''
              (Descriptions c);
          credits = foldl (\<lambda>cs v. cs @ [v]) [] (cveschema5_CVERecord.Credits c);
          refs = foldl (\<lambda>rs u. rs @ [referenceFromUrl x u]) []
                   (cveschema5_CVERecord.References c);
          pkgPath = (case Affected c of [] \<Rightarrow> '''' | n # _ \<Rightarrow> n);
          (pkgPath, modulePath) =
            (if stdlib_Contains x modulePath then (modulePath, stdlib_ModulePath x)
             else (pkgPath, modulePath));
          modulePath = (if modulePath = '''' then ''TODO'' else modulePath);
          pkgPath = (if pkgPath = '''' then modulePath else pkgPath);
          modules = [new_Module modulePath pkgPath];
          r = \<lparr>Report.ID = id', Modules = modules,
               Description = description, Report.Credits = credits,
               Report.References = refs, CVEs = [], CVEMetadata = None, Notes = []\<rparr>
      in addCVE x r (cveschema5_CVERecord.Metadata_ID c) modulePath)"


section \<open>Version Tag Parser: \<open>semverForGoVersion\<close>\<close>

definition isDigit :: "char \<Rightarrow> bool" where
  "isDigit c = (c \<in> set ''0123456789'')"

text \<open>A literal of the pattern: \<open>stripPrefix p s\<close> is what follows \<open>p\<close> at the start of \<open>s\<close>.\<close>

fun stripPrefix :: "string \<Rightarrow> string \<Rightarrow> string option" where
  "stripPrefix [] s = Some s"
| "stripPrefix (p # ps) [] = None"
| "stripPrefix (p # ps) (c # cs) = (if p = c then stripPrefix ps cs else None)"

text \<open>\<open>\d+\<close>: the longest run of digits at the start, which must not be empty.\<close>

definition digits1 :: "string \<Rightarrow> (string \<times> string) option" where
  "digits1 s =
     (let d = takeWhile isDigit s
      in if d = [] then None else Some (d, dropWhile isDigit s))"

text \<open>
  \<open>tagRegexp.FindStringSubmatch(v)\<close> for
  \<open>tagRegexp = `^go(\d+\.\d+)(\.\d+|)((beta|rc)(\d+))?$`\<close>: \<open>None\<close> is the nil slice of no
  match, otherwise the six strings are the match and the groups 1 to 5. In this
  pattern every \<open>\d+\<close> is followed by a literal that is no digit or by the end of the
  text, so a match can only take each run of digits whole, and the second group can
  only be empty when no \<open>.\<close> and digit follow: reading the text once from the left
  decides the match, without backtracking.
\<close>

definition tagRegexp_FindStringSubmatch :: "string \<Rightarrow> string list option" where
  "tagRegexp_FindStringSubmatch v =
     (case stripPrefix ''go'' v of None \<Rightarrow> None | Some s1 \<Rightarrow>
      case digits1 s1 of None \<Rightarrow> None | Some (major, s2) \<Rightarrow>
      case stripPrefix ''.'' s2 of None \<Rightarrow> None | Some s3 \<Rightarrow>
      case digits1 s3 of None \<Rightarrow> None | Some (minor, s4) \<Rightarrow>
      let (g2, s5) =
            (case stripPrefix ''.'' s4 of None \<Rightarrow> ('''', s4) | Some t \<Rightarrow>
             case digits1 t of None \<Rightarrow> ('''', s4) | Some (patch, t') \<Rightarrow> (''.'' @ patch, t'))
      in if s5 = [] then Some [v, major @ ''.'' @ minor, g2, '''', '''', '''']
         else
          case (case stripPrefix ''beta'' s5 of Some t \<Rightarrow> Some (''beta'', t) | None \<Rightarrow>
                case stripPrefix ''rc'' s5 of Some t \<Rightarrow> Some (''rc'', t) | None \<Rightarrow> None)
          of None \<Rightarrow> None | Some (kind, s6) \<Rightarrow>
          case digits1 s6 of None \<Rightarrow> None | Some (n, s7) \<Rightarrow>
          if s7 = [] then Some [v, major @ ''.'' @ minor, g2, kind @ n, kind, n] else None)"

definition semverForGoVersion :: "string \<Rightarrow> string" where
  "semverForGoVersion v =
     (case tagRegexp_FindStringSubmatch v of None \<Rightarrow> ''''
      | Some m \<Rightarrow>
          let version = m ! 1;
              version = (if m ! 2 \<noteq> '''' then version @ m ! 2 else version @ ''.0'');
              version = (if m ! 3 \<noteq> '''' then version @ ''-'' @ m ! 4 @ ''.'' @ m ! 5 else version)
          in version)"


section \<open>Reconciliation: \<open>checkSymbols\<close>, \<open>checkRefs\<close>, \<open>fixer.fix\<close>, \<open>fixAndWriteAll\<close>\<close>

text \<open>
  The functions of fix.go change a report in place, call collaborators and write log
  lines. Here the report is passed along and returned, the calls are recorded in the
  order in which they are made, and the log lines are left out, except that the
  messages passed to \<open>fixErr\<close> are kept.
\<close>

text \<open>The part of an \<open>http.Response\<close> that \<open>checkRefs\<close> reads.\<close>

record Response =
  StatusCode :: nat
  Status :: string

text \<open>
  The calls to collaborators, in the order in which they are made. \<open>Call_Exported i j\<close>
  is the call of \<open>symbols.Exported\<close> for package \<open>j\<close> of module \<open>i\<close> of the report;
  \<open>Call_write r\<close> and \<open>Call_writeDerived r\<close> carry the report as it is when it is written.
\<close>

datatype call =
  Call_Lint
  | Call_Fix
  | Call_Exported nat nat
  | Call_addMissingAliases
  | Call_Head string
  | Call_LintAsNotes
  | Call_write Report
  | Call_writeDerived Report

text \<open>
  The collaborators of \<open>checkSymbols\<close>, as parameters: the methods \<open>IsExcluded\<close> of a
  report and \<open>IsFirstParty\<close> of a module, \<open>runtime.Version()\<close>, \<open>osvutils.AffectsSemver\<close>
  and \<open>symbols.Exported\<close>. A Go result \<open>(v, err)\<close> is \<open>Inl err\<close> or \<open>Inr v\<close>.
\<close>

record symbols_env =
  IsExcluded :: "Report \<Rightarrow> bool"
  IsFirstParty :: "Module \<Rightarrow> bool"
  runtime_Version :: string
  osvutils_AffectsSemver :: "osv_Range list \<Rightarrow> string \<Rightarrow> error + bool"
  symbols_Exported :: "Module \<Rightarrow> Package \<Rightarrow> error + string list"

text \<open>
  The flags and the collaborators of \<open>fixer\<close>. A method that changes the report in
  place returns the changed report here: \<open>Fix\<close>, \<open>AddNote\<close> (for a note of type
  \<open>NoteTypeFix\<close>), \<open>LintAsNotes\<close> and \<open>addMissingAliases\<close>, the last two next to their
  results. The methods \<open>write\<close> and \<open>writeDerived\<close> of \<open>yamlReport\<close> return their error, if
  any.
\<close>

record fixer_env = symbols_env +
  force :: bool
  skipAlias :: bool
  skipSymbols :: bool
  Lint :: "Report \<Rightarrow> string list"
  Fix :: "Report \<Rightarrow> Report"
  LintAsNotes :: "Report \<Rightarrow> bool \<times> Report"
  AddNote :: "Report \<Rightarrow> fixMsg \<Rightarrow> Report"
  addMissingAliases :: "Report \<Rightarrow> int \<times> Report"
  http_Head :: "string \<Rightarrow> error + Response"
  yamlReport_write :: "Report \<Rightarrow> error option"
  yamlReport_writeDerived :: "Report \<Rightarrow> error option"

definition removeExcluded :: "string \<Rightarrow> string list \<Rightarrow> string list \<Rightarrow> string list" where
  "removeExcluded id' syms excluded =
     (if length excluded = 0 then syms
      else foldl (\<lambda>newSyms d. if d \<in> set excluded then newSyms else newSyms @ [d]) [] syms)"

text \<open>
  The loop over the packages of module \<open>m\<close>, which is module \<open>i\<close> of the report (fix.go
  lines 176-191). The packages are changed in place: \<open>before\<close> are the packages already
  visited, as they are now, and the list argument after it holds the packages still
  to visit, so that the module is \<open>m\<close> with the packages \<open>before @ p # ps\<close> when
  \<open>symbols.Exported\<close> is called for \<open>p\<close>. The result is the packages of the module, the
  calls made, and the error returned, if any.
\<close>

fun checkPackages ::
  "'a symbols_env_scheme \<Rightarrow> string \<Rightarrow> nat \<Rightarrow> Module \<Rightarrow> Package list \<Rightarrow> Package list
    \<Rightarrow> Package list \<times> call list \<times> error option" where
  "checkPackages env rid i m before [] = (before, [], None)"
| "checkPackages env rid i m before (p # ps) =
     (if SkipFix p \<noteq> '''' then checkPackages env rid i m (before @ [p]) ps
      else
        case symbols_Exported env (m\<lparr>Module.Packages := before @ p # ps\<rparr>) p of
          Inl err \<Rightarrow>
            (before @ p # ps, [Call_Exported i (length before)],
             Some (PackageError (Package p) err))
        | Inr syms \<Rightarrow>
            let syms = removeExcluded rid syms (ExcludedSymbols p);
                p' = (if syms \<noteq> DerivedSymbols p then p\<lparr>DerivedSymbols := syms\<rparr> else p)
            in case checkPackages env rid i m (before @ [p']) ps of
                 (ps', cs, e) \<Rightarrow> (ps', Call_Exported i (length before) # cs, e))"

text \<open>
  The body of the loop over the modules (lines 157-191), for module \<open>m\<close> at index \<open>i\<close>:
  the module afterwards, the calls made, and the error with which \<open>checkSymbols\<close>
  returns from here, if any. With no error the loop goes on to the next module.
\<close>

definition checkModule ::
  "'a symbols_env_scheme \<Rightarrow> string \<Rightarrow> nat \<Rightarrow> Module \<Rightarrow> Module \<times> call list \<times> error option" where
  "checkModule env rid i m =
     (let packages =
            (case checkPackages env rid i m [] (Module.Packages m) of
               (ps, cs, e) \<Rightarrow> (m\<lparr>Module.Packages := ps\<rparr>, cs, e))
      in if IsFirstParty env m
         then
           let gover = runtime_Version env;
               ver = semverForGoVersion gover
           in case osvutils_AffectsSemver env (AffectedRanges (Versions m)) ver of
                Inl err \<Rightarrow> (m, [], Some err)
              | Inr affected \<Rightarrow>
                  if ver = '''' \<or> \<not> affected then (m, [], None) else packages
         else packages)"

fun checkModules ::
  "'a symbols_env_scheme \<Rightarrow> string \<Rightarrow> nat \<Rightarrow> Module list
    \<Rightarrow> Module list \<times> call list \<times> error option" where
  "checkModules env rid i [] = ([], [], None)"
| "checkModules env rid i (m # ms) =
     (case checkModule env rid i m of
        (m', cs, Some err) \<Rightarrow> (m' # ms, cs, Some err)
      | (m', cs, None) \<Rightarrow>
          (case checkModules env rid (Suc i) ms of
             (ms', cs', e) \<Rightarrow> (m' # ms', cs @ cs', e)))"

definition checkSymbols ::
  "'a symbols_env_scheme \<Rightarrow> Report \<Rightarrow> Report \<times> call list \<times> error option" where
  "checkSymbols env r =
     (if IsExcluded env r then (r, [], None)
      else case checkModules env (Report.ID r) 0 (Modules r) of
             (ms, cs, e) \<Rightarrow> (r\<lparr>Modules := ms\<rparr>, cs, e))"

text \<open>
  The variables of \<open>fixer.fix\<close>: the report \<open>r\<close>, the result \<open>fixed\<close>, the messages passed
  to \<open>fixErr\<close> so far, and the calls made so far.
\<close>

record fixState =
  rep :: Report
  fixed :: bool
  fixErrs :: "fixMsg list"
  calls :: "call list"

text \<open>The closure \<open>fixErr\<close> (lines 84-90).\<close>

definition fixErr :: "fixer_env \<Rightarrow> bool \<Rightarrow> fixMsg \<Rightarrow> fixState \<Rightarrow> fixState" where
  "fixErr env addNotes msg st =
     st\<lparr>rep := (if addNotes then AddNote env (rep st) msg else rep st),
        fixed := False,
        fixErrs := fixErrs st @ [msg]\<rparr>"

fun checkRefs ::
  "fixer_env \<Rightarrow> Reference list \<Rightarrow> (fixMsg \<Rightarrow> fixState \<Rightarrow> fixState) \<Rightarrow> fixState \<Rightarrow> fixState" where
  "checkRefs env [] fixErr' st = st"
| "checkRefs env (r # refs) fixErr' st =
     (let st = st\<lparr>calls := calls st @ [Call_Head (URL r)]\<rparr>
      in case http_Head env (URL r) of
           Inl err \<Rightarrow> checkRefs env refs fixErr' (fixErr' (MayNotExist (URL r) err) st)
         | Inr resp \<Rightarrow>
             checkRefs env refs fixErr'
               (if StatusCode resp = 404
                then fixErr' (MayNotExistStatus (URL r) (Status resp)) st
                else st))"

text \<open>
  The five steps of \<open>fixer.fix\<close>, each a block of its body: the first lint and the
  autofix (lines 92-94), the symbol check (96-101), the alias merge (103-108), the
  reference check (110-112) and the remaining lint errors (114-125).
\<close>

definition fix_init :: "Report \<Rightarrow> fixState" where
  "fix_init r = \<lparr>rep = r, fixed = True, fixErrs = [], calls = []\<rparr>"

definition fix_lint :: "fixer_env \<Rightarrow> fixState \<Rightarrow> fixState" where
  "fix_lint env st =
     (let lints = Lint env (rep st);
          st = st\<lparr>calls := calls st @ [Call_Lint]\<rparr>
      in if force env \<or> length lints > 0
         then st\<lparr>rep := Fix env (rep st), calls := calls st @ [Call_Fix]\<rparr>
         else st)"

definition fix_symbols :: "fixer_env \<Rightarrow> bool \<Rightarrow> fixState \<Rightarrow> fixState" where
  "fix_symbols env addNotes st =
     (if \<not> skipSymbols env
      then case checkSymbols env (rep st) of
             (r, cs, e) \<Rightarrow>
               let st = st\<lparr>rep := r, calls := calls st @ cs\<rparr>
               in (case e of
                     None \<Rightarrow> st
                   | Some err \<Rightarrow> fixErr env addNotes (PackageOrSymbolError err) st)
      else st)"

definition fix_aliases :: "fixer_env \<Rightarrow> fixState \<Rightarrow> fixState" where
  "fix_aliases env st =
     (if \<not> skipAlias env
      then case addMissingAliases env (rep st) of
             (added, r) \<Rightarrow> st\<lparr>rep := r, calls := calls st @ [Call_addMissingAliases]\<rparr>
      else st)"

definition fix_refs :: "fixer_env \<Rightarrow> bool \<Rightarrow> fixState \<Rightarrow> fixState" where
  "fix_refs env addNotes st =
     checkRefs env (Report.References (rep st)) (fixErr env addNotes) st"

definition fix_remaining :: "fixer_env \<Rightarrow> bool \<Rightarrow> fixState \<Rightarrow> fixState" where
  "fix_remaining env addNotes st =
     (if addNotes
      then case LintAsNotes env (rep st) of
             (has, r) \<Rightarrow>
               let st = st\<lparr>rep := r, calls := calls st @ [Call_LintAsNotes]\<rparr>
               in if has then st\<lparr>fixed := False\<rparr> else st
      else
        let lints = Lint env (rep st);
            st = st\<lparr>calls := calls st @ [Call_Lint]\<rparr>
        in if length lints > 0 then st\<lparr>fixed := False\<rparr> else st)"

text \<open>The method \<open>fix\<close> of \<open>fixer\<close> (lines 81-128).\<close>

definition fixer_fix :: "fixer_env \<Rightarrow> Report \<Rightarrow> bool \<Rightarrow> fixState" where
  "fixer_fix env r addNotes =
     (let st = fix_init r;
          st = fix_lint env st;
          st = fix_symbols env addNotes st;
          st = fix_aliases env st;
          st = fix_refs env addNotes st;
          st = fix_remaining env addNotes st
      in st)"

text \<open>
  \<open>fixAndWriteAll\<close> (lines 66-79): the error returned, the report afterwards, and all
  calls made.
\<close>

definition fixAndWriteAll :: "fixer_env \<Rightarrow> Report \<Rightarrow> error option \<times> Report \<times> call list" where
  "fixAndWriteAll env r =
     (let st = fixer_fix env r False;
          cs = calls st @ [Call_write (rep st)]
      in case yamlReport_write env (rep st) of
           Some err \<Rightarrow> (Some err, rep st, cs)
         | None \<Rightarrow>
             if fixed st
             then (yamlReport_writeDerived env (rep st), rep st, cs @ [Call_writeDerived (rep st)])
             else (Some (ManualReview (Report.ID (rep st))), rep st, cs))"


section \<open>Properties of the Range Builder\<close>

text \<open>The events that one input range contributes, in the words of the specification.\<close>

definition range_events :: "VersionRange \<Rightarrow> osv_RangeEvent list" where
  "range_events v =
     (if VersionRange.Introduced v \<noteq> ''''
      then [\<lparr>osv_RangeEvent.Introduced = VersionRange.Introduced v, osv_RangeEvent.Fixed = ''''\<rparr>]
      else [])
     @ (if VersionRange.Fixed v \<noteq> ''''
        then [\<lparr>osv_RangeEvent.Introduced = '''', osv_RangeEvent.Fixed = VersionRange.Fixed v\<rparr>]
        else [])"

lemma AffectedRanges_step_events:
  "AffectedRanges_step a v = a\<lparr>Events := Events a @ range_events v\<rparr>"
  by (simp add: AffectedRanges_step_def range_events_def Let_def)

lemma foldl_AffectedRanges_step:
  "foldl AffectedRanges_step a vs = a\<lparr>Events := Events a @ concat (map range_events vs)\<rparr>"
  by (induction vs arbitrary: a) (simp_all add: AffectedRanges_step_events)

text \<open>
  Claim C5. For every ordered list of version ranges, empty or not, \<open>AffectedRanges\<close>
  returns exactly one semver range. Its events start with the event whose introduced
  field is \<open>0\<close> and whose fixed field is empty exactly when the list is empty or the
  introduced field of its first element is empty. Then follow, for each input range
  in the order given, an event that carries the introduced version of the range (and
  an empty fixed field) when that version is not empty, and after it an event that
  carries the fixed version of the range (and an empty introduced field) when that
  version is not empty. Nothing is merged or removed: the events of all ranges are
  concatenated.
\<close>

theorem AffectedRanges_events:
  "AffectedRanges versions =
     [\<lparr>osv_Range.Type = RangeTypeSemver,
       Events =
         (if versions = [] \<or> VersionRange.Introduced (hd versions) = ''''
          then [\<lparr>osv_RangeEvent.Introduced = ''0'', osv_RangeEvent.Fixed = ''''\<rparr>] else [])
         @ concat (map (\<lambda>v.
             (if VersionRange.Introduced v \<noteq> ''''
              then [\<lparr>osv_RangeEvent.Introduced = VersionRange.Introduced v,
                     osv_RangeEvent.Fixed = ''''\<rparr>]
              else [])
             @ (if VersionRange.Fixed v \<noteq> ''''
                then [\<lparr>osv_RangeEvent.Introduced = '''',
                       osv_RangeEvent.Fixed = VersionRange.Fixed v\<rparr>]
                else [])) versions)\<rparr>]"
proof -
  have "range_events =
     (\<lambda>v. (if VersionRange.Introduced v \<noteq> ''''
              then [\<lparr>osv_RangeEvent.Introduced = VersionRange.Introduced v,
                     osv_RangeEvent.Fixed = ''''\<rparr>]
              else [])
             @ (if VersionRange.Fixed v \<noteq> ''''
                then [\<lparr>osv_RangeEvent.Introduced = '''',
                       osv_RangeEvent.Fixed = VersionRange.Fixed v\<rparr>]
                else []))"
    by (rule ext) (simp add: range_events_def)
  then show ?thesis
    unfolding AffectedRanges_def foldl_AffectedRanges_step
    by (cases versions) (simp_all add: Let_def)
qed


section \<open>Properties of text normalization\<close>

text \<open>
  Claim C4. The specification says that normalizing twice gives the same text as
  normalizing once. \<open>trimWhitespace\<close> does not do so: in \<open>a\nb\nc\<close> the first replacement
  turns \<open>a\nb\<close> into \<open>a b\<close> and goes on behind \<open>b\<close>, so the newline between \<open>b\<close> and \<open>c\<close> has
  no code point left before it to match and stays; the result is \<open>a b\nc\<close>. Normalizing
  that result replaces the newline that was left: \<open>a b c\<close>.
\<close>

theorem trimWhitespace_twice:
  "trimWhitespace ''a\<newline>b\<newline>c'' = ''a b\<newline>c''
   \<and> trimWhitespace (trimWhitespace ''a\<newline>b\<newline>c'') = ''a b c''"
  by code_simp


section \<open>Properties of the public module path\<close>

text \<open>A concrete choice of the parameters, used in the instances below.\<close>

definition x0 :: extern where
  "x0 = \<lparr>stdlib_ModulePath = ''std'', stdlib_ToolchainModulePath = ''cmd'',
          osv_GoStdModulePath = ''stdlib'', osv_GoCmdModulePath = ''toolchain'',
          stdlib_Contains = (\<lambda>p. p \<in> set [''fmt'', ''net/http'']),
          stdlib_IsStdModule = (\<lambda>p. p = ''std''),
          stdlib_IsCmdModule = (\<lambda>p. p = ''cmd''),
          stdlib_IsXModule = (\<lambda>p. False),
          referenceFromUrl = (\<lambda>u. \<lparr>Reference.Type = ''WEB'', URL = u\<rparr>)\<rparr>"


text \<open>
  Claim C8. The module path of the affected block that \<open>generateAffected\<close> builds is the
  public standard-library identifier when the module path is the internal
  standard-library sentinel, the public toolchain identifier when it is the internal
  toolchain sentinel, and the module path itself otherwise. When the two public
  identifiers differ from the two internal sentinels, the module path of the affected
  block is never an internal sentinel.
\<close>

theorem generateAffected_module_path:
  "osv_Module.Path (osv_Affected.Module (generateAffected x m)) =
     (if Module.Module m = stdlib_ModulePath x then osv_GoStdModulePath x
      else if Module.Module m = stdlib_ToolchainModulePath x then osv_GoCmdModulePath x
      else Module.Module m)
   \<and> (osv_GoStdModulePath x \<notin> {stdlib_ModulePath x, stdlib_ToolchainModulePath x}
        \<and> osv_GoCmdModulePath x \<notin> {stdlib_ModulePath x, stdlib_ToolchainModulePath x}
      \<longrightarrow> osv_Module.Path (osv_Affected.Module (generateAffected x m))
            \<notin> {stdlib_ModulePath x, stdlib_ToolchainModulePath x})"
  by (simp add: generateAffected_def Let_def)

definition std_module :: Module where
  "std_module = new_Module ''std'' ''net/http''"

theorem generateAffected_module_path_witness:
  "osv_GoStdModulePath x0 \<notin> {stdlib_ModulePath x0, stdlib_ToolchainModulePath x0}
   \<and> osv_GoCmdModulePath x0 \<notin> {stdlib_ModulePath x0, stdlib_ToolchainModulePath x0}
   \<and> Module.Module std_module = stdlib_ModulePath x0
   \<and> osv_Module.Path (osv_Affected.Module (generateAffected x0 std_module)) = ''stdlib''
   \<and> osv_Module.Path (osv_Affected.Module (generateAffected x0 std_module)) \<notin> {''std'', ''cmd''}"
  using generateAffected_module_path [of x0 std_module]
  by (simp add: x0_def std_module_def new_Module_def)


section \<open>Properties of the Schema Converter\<close>

text \<open>
  The rule of the specification: the module path and the package path after
  standard-library correction, then the unresolved marker for an empty module path
  and the module path for an empty package path.
\<close>

definition corrected_module :: "extern \<Rightarrow> string \<Rightarrow> string" where
  "corrected_module x modulePath =
     (if stdlib_Contains x modulePath then stdlib_ModulePath x else modulePath)"

definition corrected_package :: "extern \<Rightarrow> string \<Rightarrow> string \<Rightarrow> string" where
  "corrected_package x candidate modulePath =
     (if stdlib_Contains x modulePath then modulePath else candidate)"

definition resolved_module :: "extern \<Rightarrow> string \<Rightarrow> string" where
  "resolved_module x modulePath =
     (if corrected_module x modulePath = '''' then ''TODO'' else corrected_module x modulePath)"

definition resolved_package :: "extern \<Rightarrow> string \<Rightarrow> string \<Rightarrow> string" where
  "resolved_package x candidate modulePath =
     (if corrected_package x candidate modulePath = '''' then resolved_module x modulePath
      else corrected_package x candidate modulePath)"

definition first_product_v4 :: "cveschema_CVE \<Rightarrow> string" where
  "first_product_v4 c =
     (if Affects_Vendor_Data c = [] \<or> hd (Affects_Vendor_Data c) = [] then ''''
      else hd (hd (Affects_Vendor_Data c)))"

definition first_product_v5 :: "cveschema5_CVERecord \<Rightarrow> string" where
  "first_product_v5 c = (if Affected c = [] then '''' else hd (Affected c))"

lemma Modules_addCVE [simp]: "Modules (addCVE x r i m) = Modules r"
  by (simp add: addCVE_def)

lemma cveToReport_Modules:
  "Modules (cveToReport x c id' modulePath) =
     [new_Module (resolved_module x modulePath)
        (resolved_package x (first_product_v4 c) modulePath)]"
  by (simp add: cveToReport_def Let_def resolved_module_def resolved_package_def
      corrected_module_def corrected_package_def first_product_v4_def split: list.splits)

lemma cve5ToReport_Modules:
  "Modules (cve5ToReport x c id' modulePath) =
     [new_Module (resolved_module x modulePath)
        (resolved_package x (first_product_v5 c) modulePath)]"
  by (simp add: cve5ToReport_def Let_def resolved_module_def resolved_package_def
      corrected_module_def corrected_package_def first_product_v5_def split: list.splits)

lemma cveToReport_paths:
  "map Module.Module (Modules (cveToReport x c id' modulePath)) = [resolved_module x modulePath]"
  "map (\<lambda>m. map Package (Module.Packages m)) (Modules (cveToReport x c id' modulePath)) =
     [[resolved_package x (first_product_v4 c) modulePath]]"
  by (simp_all add: cveToReport_Modules new_Module_def)

lemma cve5ToReport_paths:
  "map Module.Module (Modules (cve5ToReport x c id' modulePath)) = [resolved_module x modulePath]"
  "map (\<lambda>m. map Package (Module.Packages m)) (Modules (cve5ToReport x c id' modulePath)) =
     [[resolved_package x (first_product_v5 c) modulePath]]"
  by (simp_all add: cve5ToReport_Modules new_Module_def)

definition cve4_foo :: cveschema_CVE where
  "cve4_foo = \<lparr>cveschema_CVE.Metadata_ID = ''CVE-2024-0001'', Description_Data = [''a flaw''],
               References_Data = [''https://example.com/a''], Credit_Data = [],
               Affects_Vendor_Data = [[''foo'', ''bar'']]\<rparr>"

definition cve5_foo :: cveschema5_CVERecord where
  "cve5_foo = \<lparr>cveschema5_CVERecord.Metadata_ID = ''CVE-2024-0001'',
               Descriptions = [\<lparr>Lang = ''en'', Value = ''a flaw''\<rparr>],
               Credits = [], References = [''https://example.com/a''],
               Affected = [''foo'']\<rparr>"

text \<open>
  A choice of \<open>stdlib.Contains\<close> that accepts the empty path: a path is recognised as
  part of the standard library when its first component has no dot.
\<close>

definition x1 :: extern where
  "x1 = x0\<lparr>stdlib_Contains := (\<lambda>p. CHR ''.'' \<notin> set (takeWhile (\<lambda>c. c \<noteq> CHR ''/'') p))\<rparr>"







section \<open>Properties of the Version Tag Parser\<close>

text \<open>
  The shape \<open>go<major>.<minor>[.<patch>][(beta|rc)<n>]\<close> of the specification, and the
  semantic version it stands for.
\<close>

definition digit_string :: "string \<Rightarrow> bool" where
  "digit_string s = (s \<noteq> [] \<and> list_all isDigit s)"

definition go_tag :: "string \<Rightarrow> string \<Rightarrow> string option \<Rightarrow> (string \<times> string) option \<Rightarrow> string" where
  "go_tag major minor patch pre =
     ''go'' @ major @ ''.'' @ minor
     @ (case patch of None \<Rightarrow> '''' | Some p \<Rightarrow> ''.'' @ p)
     @ (case pre of None \<Rightarrow> '''' | Some (k, n) \<Rightarrow> k @ n)"

definition go_semver :: "string \<Rightarrow> string \<Rightarrow> string option \<Rightarrow> (string \<times> string) option \<Rightarrow> string" where
  "go_semver major minor patch pre =
     major @ ''.'' @ minor
     @ (case patch of None \<Rightarrow> ''.0'' | Some p \<Rightarrow> ''.'' @ p)
     @ (case pre of None \<Rightarrow> '''' | Some (k, n) \<Rightarrow> ''-'' @ k @ ''.'' @ n)"

definition go_tag_parts :: "string \<Rightarrow> string \<Rightarrow> string option \<Rightarrow> (string \<times> string) option \<Rightarrow> bool" where
  "go_tag_parts major minor patch pre =
     (digit_string major \<and> digit_string minor
      \<and> (case patch of None \<Rightarrow> True | Some p \<Rightarrow> digit_string p)
      \<and> (case pre of None \<Rightarrow> True | Some (k, n) \<Rightarrow> (k = ''beta'' \<or> k = ''rc'') \<and> digit_string n))"

lemma stripPrefix_Some: "stripPrefix p s = Some r \<longleftrightarrow> s = p @ r"
  by (induction p s rule: stripPrefix.induct) auto

lemma stripPrefix_append [simp]: "stripPrefix p (p @ r) = Some r"
  by (simp add: stripPrefix_Some)

lemma digits1_append:
  assumes "digit_string d" and "r = [] \<or> \<not> isDigit (hd r)"
  shows "digits1 (d @ r) = Some (d, r)"
proof -
  have all: "\<forall>c\<in>set d. isDigit c" using assms(1) by (simp add: digit_string_def list_all_iff)
  have tw: "takeWhile isDigit r = []" using assms(2) by (cases r) auto
  have dw: "dropWhile isDigit r = r" using assms(2) by (cases r) auto
  from all have "takeWhile isDigit (d @ r) = d @ takeWhile isDigit r"
    by (simp add: takeWhile_append2)
  moreover from all have "dropWhile isDigit (d @ r) = dropWhile isDigit r"
    by (simp add: dropWhile_append2)
  ultimately show ?thesis using assms(1) tw dw
    by (simp add: digits1_def digit_string_def)
qed

lemma digits1_Some:
  assumes "digits1 s = Some (d, r)"
  shows "s = d @ r \<and> digit_string d \<and> (r = [] \<or> \<not> isDigit (hd r))"
proof -
  from assms have d: "d = takeWhile isDigit s" and r: "r = dropWhile isDigit s" and ne: "d \<noteq> []"
    by (auto simp: digits1_def Let_def split: if_splits)
  have "s = d @ r" using d r by simp
  moreover have "list_all isDigit d" unfolding d list_all_iff by (auto dest: set_takeWhileD)
  moreover have "r = [] \<or> \<not> isDigit (hd r)" unfolding r
    by (cases "dropWhile isDigit s = []") (simp_all add: hd_dropWhile)
  ultimately show ?thesis using ne by (simp add: digit_string_def)
qed

lemma digits1_nondigit:
  "digit_string d \<Longrightarrow> \<not> isDigit c \<Longrightarrow> digits1 (d @ c # r) = Some (d, c # r)"
  by (rule digits1_append) simp_all

lemma digits1_end: "digit_string d \<Longrightarrow> digits1 d = Some (d, [])"
  using digits1_append [of d "[]"] by simp

lemma nondigits [simp]:
  "\<not> isDigit CHR ''.''" "\<not> isDigit CHR ''b''" "\<not> isDigit CHR ''r''"
  by (simp_all add: isDigit_def)

lemma digit_string_not_Nil: "digit_string d \<Longrightarrow> d \<noteq> []"
  by (simp add: digit_string_def)

lemma FindStringSubmatch_go_tag:
  assumes "go_tag_parts major minor patch pre"
  shows "tagRegexp_FindStringSubmatch (go_tag major minor patch pre) =
          Some [go_tag major minor patch pre, major @ ''.'' @ minor,
                (case patch of None \<Rightarrow> '''' | Some p \<Rightarrow> ''.'' @ p),
                (case pre of None \<Rightarrow> '''' | Some (k, n) \<Rightarrow> k @ n),
                (case pre of None \<Rightarrow> '''' | Some (k, n) \<Rightarrow> k),
                (case pre of None \<Rightarrow> '''' | Some (k, n) \<Rightarrow> n)]"
proof -
  from assms have maj: "digit_string major" and mi: "digit_string minor"
    by (simp_all add: go_tag_parts_def)
  show ?thesis
  proof (cases patch)
    case None
    show ?thesis
    proof (cases pre)
      case pNone: None
      show ?thesis using maj mi None pNone
        by (simp add: tagRegexp_FindStringSubmatch_def go_tag_def digits1_nondigit digits1_end)
    next
      case (Some kn)
      obtain k n where kn: "kn = (k, n)" by (cases kn)
      from assms Some kn have k: "k = ''beta'' \<or> k = ''rc''" and n: "digit_string n"
        by (simp_all add: go_tag_parts_def)
      from k show ?thesis using maj mi n None Some kn
        by (auto simp: tagRegexp_FindStringSubmatch_def go_tag_def digits1_nondigit digits1_end
            dest: digit_string_not_Nil)
    qed
  next
    case pSome: (Some p)
    from assms pSome have p: "digit_string p" by (simp add: go_tag_parts_def)
    show ?thesis
    proof (cases pre)
      case None
      show ?thesis using maj mi p None pSome
        by (simp add: tagRegexp_FindStringSubmatch_def go_tag_def digits1_nondigit digits1_end)
    next
      case (Some kn)
      obtain k n where kn: "kn = (k, n)" by (cases kn)
      from assms Some kn have k: "k = ''beta'' \<or> k = ''rc''" and n: "digit_string n"
        by (simp_all add: go_tag_parts_def)
      from k show ?thesis using maj mi p n pSome Some kn
        by (auto simp: tagRegexp_FindStringSubmatch_def go_tag_def digits1_nondigit digits1_end
            dest: digit_string_not_Nil)
    qed
  qed
qed

lemma semverForGoVersion_go_tag:
  assumes "go_tag_parts major minor patch pre"
  shows "semverForGoVersion (go_tag major minor patch pre) = go_semver major minor patch pre"
proof -
  have "pre = Some (k, n) \<Longrightarrow> k @ n \<noteq> []" for k n
    using assms by (auto simp: go_tag_parts_def)
  then show ?thesis
    unfolding semverForGoVersion_def FindStringSubmatch_go_tag [OF assms]
    by (cases patch; cases pre) (auto simp: go_semver_def)
qed

lemma FindStringSubmatch_Some:
  assumes "tagRegexp_FindStringSubmatch v = Some m"
  shows "\<exists>major minor patch pre. go_tag_parts major minor patch pre \<and> v = go_tag major minor patch pre"
proof -
  from assms obtain s1 major s2 s3 minor s4 where
    s1: "stripPrefix ''go'' v = Some s1" and d1: "digits1 s1 = Some (major, s2)" and
    s3: "stripPrefix ''.'' s2 = Some s3" and d3: "digits1 s3 = Some (minor, s4)"
    by (auto simp: tagRegexp_FindStringSubmatch_def split: option.splits prod.splits)
  define gs where "gs =
    (case stripPrefix ''.'' s4 of None \<Rightarrow> ('''', s4) | Some t \<Rightarrow>
       case digits1 t of None \<Rightarrow> ('''', s4) | Some (patch, t') \<Rightarrow> (''.'' @ patch, t'))"
  obtain g2 s5 where gs: "gs = (g2, s5)" by (cases gs)
  have "\<exists>patch. (case patch of None \<Rightarrow> True | Some p \<Rightarrow> digit_string p)
          \<and> s4 = (case patch of None \<Rightarrow> '''' | Some p \<Rightarrow> ''.'' @ p) @ s5"
  proof (cases "stripPrefix ''.'' s4")
    case None
    with gs have "s5 = s4" by (simp add: gs_def)
    then show ?thesis by (intro exI [of _ None]) simp
  next
    case (Some t)
    show ?thesis
    proof (cases "digits1 t")
      case None
      with Some gs have "s5 = s4" by (simp add: gs_def)
      then show ?thesis by (intro exI [of _ None]) simp
    next
      case dSome: (Some pt)
      obtain p t' where pt: "pt = (p, t')" by (cases pt)
      from Some dSome pt gs have "s5 = t'" by (simp add: gs_def)
      moreover from dSome pt have "t = p @ t'" "digit_string p"
        using digits1_Some by blast+
      moreover from Some have "s4 = ''.'' @ t" by (simp add: stripPrefix_Some)
      ultimately show ?thesis by (intro exI [of _ "Some p"]) simp
    qed
  qed
  then obtain patch where patch: "case patch of None \<Rightarrow> True | Some p \<Rightarrow> digit_string p"
    and s4: "s4 = (case patch of None \<Rightarrow> '''' | Some p \<Rightarrow> ''.'' @ p) @ s5" by blast
  have "tagRegexp_FindStringSubmatch v =
      (case gs of (g2, s5) \<Rightarrow>
         if s5 = [] then Some [v, major @ ''.'' @ minor, g2, '''', '''', '''']
         else
          case (case stripPrefix ''beta'' s5 of Some t \<Rightarrow> Some (''beta'', t) | None \<Rightarrow>
                case stripPrefix ''rc'' s5 of Some t \<Rightarrow> Some (''rc'', t) | None \<Rightarrow> None)
          of None \<Rightarrow> None | Some (kind, s6) \<Rightarrow>
          case digits1 s6 of None \<Rightarrow> None | Some (n, s7) \<Rightarrow>
          if s7 = [] then Some [v, major @ ''.'' @ minor, g2, kind @ n, kind, n] else None)"
    using s1 d1 s3 d3 by (simp add: tagRegexp_FindStringSubmatch_def gs_def)
  with assms gs have rest:
    "s5 = [] \<or> (\<exists>s6 n. stripPrefix ''beta'' s5 = Some s6 \<and> digits1 s6 = Some (n, []))
      \<or> (\<exists>s6 n. stripPrefix ''rc'' s5 = Some s6 \<and> digits1 s6 = Some (n, []))"
    by (auto split: option.splits if_splits)
  have "\<exists>pre. (case pre of None \<Rightarrow> True | Some (k, n) \<Rightarrow> (k = ''beta'' \<or> k = ''rc'') \<and> digit_string n)
          \<and> s5 = (case pre of None \<Rightarrow> '''' | Some (k, n) \<Rightarrow> k @ n)"
  proof (cases "s5 = []")
    case True
    then show ?thesis by (intro exI [of _ None]) simp
  next
    case False
    with rest obtain kind s6 n where k: "kind = ''beta'' \<or> kind = ''rc''"
      and sp: "stripPrefix kind s5 = Some s6" and dn: "digits1 s6 = Some (n, [])" by blast
    from dn have "s6 = n" "digit_string n" using digits1_Some by fastforce+
    with sp k show ?thesis by (intro exI [of _ "Some (kind, n)"]) (simp add: stripPrefix_Some)
  qed
  then obtain pre where pre: "case pre of None \<Rightarrow> True | Some (k, n) \<Rightarrow> (k = ''beta'' \<or> k = ''rc'') \<and> digit_string n"
    and s5: "s5 = (case pre of None \<Rightarrow> '''' | Some (k, n) \<Rightarrow> k @ n)" by blast
  from s1 have "v = ''go'' @ s1" by (simp add: stripPrefix_Some)
  moreover from d1 have "s1 = major @ s2" "digit_string major" using digits1_Some by blast+
  moreover from s3 have "s2 = ''.'' @ s3" by (simp add: stripPrefix_Some)
  moreover from d3 have "s3 = minor @ s4" "digit_string minor" using digits1_Some by blast+
  ultimately have "go_tag_parts major minor patch pre \<and> v = go_tag major minor patch pre"
    using patch pre s4 s5 by (simp add: go_tag_parts_def go_tag_def)
  then show ?thesis by blast
qed

lemma semverForGoVersion_unknown:
  assumes "\<not> (\<exists>major minor patch pre. go_tag_parts major minor patch pre \<and> v = go_tag major minor patch pre)"
  shows "semverForGoVersion v = ''''"
proof (cases "tagRegexp_FindStringSubmatch v")
  case None
  then show ?thesis by (simp add: semverForGoVersion_def)
next
  case (Some m)
  with assms FindStringSubmatch_Some show ?thesis by blast
qed


text \<open>
  Claim C9. A tag of the shape \<open>go<major>.<minor>[.<patch>][(beta|rc)<n>]\<close>, whose parts
  are non-empty runs of digits, is mapped to \<open><major>.<minor>.<patch>\<close>, with patch \<open>0\<close>
  when there is none, followed by \<open>-<beta|rc>.<n>\<close> when there is a prerelease. Every
  text that is not of this shape is mapped to the empty string. In particular
  \<open>go1.21.3\<close> gives \<open>1.21.3\<close>, \<open>go1.21beta1\<close> gives \<open>1.21.0-beta.1\<close> and \<open>1.21.3\<close> gives the
  empty string.
\<close>

theorem semverForGoVersion_shape:
  "(\<forall>major minor patch pre. go_tag_parts major minor patch pre
      \<longrightarrow> semverForGoVersion (go_tag major minor patch pre) = go_semver major minor patch pre)
   \<and> (\<forall>v. \<not> (\<exists>major minor patch pre.
              go_tag_parts major minor patch pre \<and> v = go_tag major minor patch pre)
      \<longrightarrow> semverForGoVersion v = '''')
   \<and> semverForGoVersion ''go1.21.3'' = ''1.21.3''
   \<and> semverForGoVersion ''go1.21beta1'' = ''1.21.0-beta.1''
   \<and> semverForGoVersion ''1.21.3'' = ''''"
proof (intro conjI allI impI)
  show "semverForGoVersion ''go1.21.3'' = ''1.21.3''" by code_simp
  show "semverForGoVersion ''go1.21beta1'' = ''1.21.0-beta.1''" by code_simp
  show "semverForGoVersion ''1.21.3'' = ''''" by code_simp
qed (simp_all add: semverForGoVersion_go_tag semverForGoVersion_unknown)

theorem semverForGoVersion_shape_witness:
  "go_tag_parts ''1'' ''21'' None (Some (''rc'', ''2''))
   \<and> go_tag ''1'' ''21'' None (Some (''rc'', ''2'')) = ''go1.21rc2''
   \<and> semverForGoVersion ''go1.21rc2'' = ''1.21.0-rc.2''
   \<and> \<not> (\<exists>major minor patch pre.
          go_tag_parts major minor patch pre \<and> ''v1.21'' = go_tag major minor patch pre)
   \<and> semverForGoVersion ''v1.21'' = ''''"
proof -
  have parts: "go_tag_parts ''1'' ''21'' None (Some (''rc'', ''2''))"
    by (simp add: go_tag_parts_def digit_string_def isDigit_def)
  have tag: "go_tag ''1'' ''21'' None (Some (''rc'', ''2'')) = ''go1.21rc2''"
    by (simp add: go_tag_def)
  have sem: "go_semver ''1'' ''21'' None (Some (''rc'', ''2'')) = ''1.21.0-rc.2''"
    by (simp add: go_semver_def)
  have no: "\<not> (\<exists>major minor patch pre.
          go_tag_parts major minor patch pre \<and> ''v1.21'' = go_tag major minor patch pre)"
    by (simp add: go_tag_def)
  from semverForGoVersion_shape parts no tag sem show ?thesis by metis
qed


section \<open>Properties of the Reference Validator\<close>

text \<open>
  The policy of the specification for one reference: the defect recorded for it, if
  any. A transport failure is a defect, a response with status 404 is a defect, a
  response with any other status is none.
\<close>

definition ref_defect :: "fixer_env \<Rightarrow> Reference \<Rightarrow> fixMsg list" where
  "ref_defect env r =
     (case http_Head env (URL r) of
        Inl err \<Rightarrow> [MayNotExist (URL r) err]
      | Inr resp \<Rightarrow>
          if StatusCode resp = 404 then [MayNotExistStatus (URL r) (Status resp)] else [])"

lemma fixErr_fields [simp]:
  "fixErrs (fixErr env addNotes msg st) = fixErrs st @ [msg]"
  "fixed (fixErr env addNotes msg st) = False"
  "calls (fixErr env addNotes msg st) = calls st"
  by (simp_all add: fixErr_def)

lemma checkRefs_fixErrs:
  "fixErrs (checkRefs env refs (fixErr env addNotes) st) =
     fixErrs st @ concat (map (ref_defect env) refs)"
  by (induction refs arbitrary: st) (simp_all add: ref_defect_def Let_def split: sum.splits)

lemma checkRefs_fixed:
  "fixed (checkRefs env refs (fixErr env addNotes) st) =
     (fixed st \<and> list_all (\<lambda>r. ref_defect env r = []) refs)"
  by (induction refs arbitrary: st) (auto simp: ref_defect_def Let_def split: sum.splits)

lemma checkRefs_calls:
  "calls (checkRefs env refs (fixErr env addNotes) st) =
     calls st @ map (\<lambda>r. Call_Head (URL r)) refs"
  by (induction refs arbitrary: st) (simp_all add: Let_def split: sum.splits)

text \<open>
  Claim C6. \<open>checkRefs\<close> issues one HEAD request for every reference, in order, and
  records exactly these defects: for a request that fails at the transport level, one
  defect; for a response with status 404, one defect; for a response with any other
  status, such as 500, 403 or 429, none. The result \<open>fixed\<close> stays true exactly when it
  was true and no reference has a defect.
\<close>

theorem checkRefs_policy:
  "fixErrs (checkRefs env refs (fixErr env addNotes) st) =
     fixErrs st @ concat (map (ref_defect env) refs)
   \<and> fixed (checkRefs env refs (fixErr env addNotes) st) =
     (fixed st \<and> list_all (\<lambda>r. ref_defect env r = []) refs)
   \<and> calls (checkRefs env refs (fixErr env addNotes) st) =
     calls st @ map (\<lambda>r. Call_Head (URL r)) refs"
  by (simp only: checkRefs_fixErrs checkRefs_fixed checkRefs_calls)

lemma ref_defect_tolerated:
  "http_Head env (URL r) = Inr \<lparr>StatusCode = 500, Status = s\<rparr> \<Longrightarrow> ref_defect env r = []"
  "http_Head env (URL r) = Inr \<lparr>StatusCode = 403, Status = s\<rparr> \<Longrightarrow> ref_defect env r = []"
  "http_Head env (URL r) = Inr \<lparr>StatusCode = 429, Status = s\<rparr> \<Longrightarrow> ref_defect env r = []"
  by (simp_all add: ref_defect_def)


section \<open>The calls and the result of \<open>fixer.fix\<close>\<close>

fun is_write :: "call \<Rightarrow> bool" where
  "is_write (Call_write r) = True"
| "is_write (Call_writeDerived r) = True"
| "is_write c = False"

fun is_writeDerived :: "call \<Rightarrow> bool" where
  "is_writeDerived (Call_writeDerived r) = True"
| "is_writeDerived c = False"

fun is_Exported :: "call \<Rightarrow> bool" where
  "is_Exported (Call_Exported i j) = True"
| "is_Exported c = False"

lemma checkPackages_calls: "list_all is_Exported (fst (snd (checkPackages env rid i m before ps)))"
  by (induction ps arbitrary: before) (simp_all add: Let_def case_prod_beta split: sum.splits)

lemma checkModule_calls: "list_all is_Exported (fst (snd (checkModule env rid i m)))"
  using checkPackages_calls [of env rid i m "[]" "Module.Packages m"]
  by (auto simp: checkModule_def Let_def split: sum.splits prod.splits)

lemma checkModules_calls: "list_all is_Exported (fst (snd (checkModules env rid i ms)))"
proof (induction ms arbitrary: i)
  case Nil
  show ?case by simp
next
  case (Cons m ms)
  from checkModule_calls [of env rid i m] Cons [of "Suc i"] show ?case
    by (auto split: prod.splits option.splits)
qed

lemma checkSymbols_calls: "list_all is_Exported (fst (snd (checkSymbols env r)))"
  using checkModules_calls [of env "Report.ID r" 0 "Modules r"]
  by (auto simp: checkSymbols_def split: prod.splits)

lemma is_Exported_not_write: "list_all is_Exported cs \<Longrightarrow> filter is_write cs = []"
  by (induction cs) (auto elim: is_Exported.elims)

text \<open>The calls of \<open>fixer.fix\<close>, step by step.\<close>

lemma fix_lint_calls:
  "calls (fix_lint env st) =
     calls st @ Call_Lint # (if force env \<or> Lint env (rep st) \<noteq> [] then [Call_Fix] else [])"
  by (simp add: fix_lint_def Let_def)

lemma fix_symbols_calls:
  "calls (fix_symbols env addNotes st) =
     calls st @ (if skipSymbols env then [] else fst (snd (checkSymbols env (rep st))))"
  by (simp add: fix_symbols_def Let_def split: prod.splits option.splits)

lemma fix_aliases_calls:
  "calls (fix_aliases env st) =
     calls st @ (if skipAlias env then [] else [Call_addMissingAliases])"
  by (simp add: fix_aliases_def split: prod.splits)

lemma fix_refs_calls:
  "calls (fix_refs env addNotes st) =
     calls st @ map (\<lambda>r. Call_Head (URL r)) (Report.References (rep st))"
  by (simp add: fix_refs_def checkRefs_calls)

lemma fix_remaining_calls:
  "calls (fix_remaining env addNotes st) =
     calls st @ [if addNotes then Call_LintAsNotes else Call_Lint]"
  by (simp add: fix_remaining_def Let_def split: prod.splits)

lemma filter_is_write_Head [simp]: "filter is_write (map (\<lambda>r. Call_Head (f r)) refs) = []"
  by (induction refs) simp_all

lemma fixer_fix_no_write: "filter is_write (calls (fixer_fix env r addNotes)) = []"
  by (simp add: fixer_fix_def Let_def fix_remaining_calls fix_refs_calls fix_aliases_calls
      fix_symbols_calls fix_lint_calls fix_init_def is_Exported_not_write checkSymbols_calls)

text \<open>The result \<open>fixed\<close> is true exactly as long as \<open>fixErr\<close> has not been called.\<close>

definition fixed_inv :: "fixState \<Rightarrow> bool" where
  "fixed_inv st = (fixed st = (fixErrs st = []))"

lemma fixed_inv_init: "fixed_inv (fix_init r)"
  by (simp add: fixed_inv_def fix_init_def)

lemma fixed_inv_lint: "fixed_inv st \<Longrightarrow> fixed_inv (fix_lint env st)"
  by (simp add: fixed_inv_def fix_lint_def Let_def)

lemma fixed_inv_symbols: "fixed_inv st \<Longrightarrow> fixed_inv (fix_symbols env addNotes st)"
  by (simp add: fixed_inv_def fix_symbols_def Let_def split: prod.splits option.splits)

lemma fixed_inv_aliases: "fixed_inv st \<Longrightarrow> fixed_inv (fix_aliases env st)"
  by (simp add: fixed_inv_def fix_aliases_def split: prod.splits)

lemma concat_map_Nil: "(concat (map f xs) = []) = list_all (\<lambda>x. f x = []) xs"
  by (induction xs) simp_all

lemma fixed_inv_refs: "fixed_inv st \<Longrightarrow> fixed_inv (fix_refs env addNotes st)"
  by (simp add: fixed_inv_def fix_refs_def checkRefs_fixed checkRefs_fixErrs concat_map_Nil
      list_all_iff)

lemma fix_remaining_False:
  "fixed (fix_remaining env False st) = (fixed st \<and> Lint env (rep st) = [])"
  "fixErrs (fix_remaining env False st) = fixErrs st"
  "rep (fix_remaining env False st) = rep st"
  by (simp_all add: fix_remaining_def Let_def)

lemma fixer_fix_fixed:
  "fixed (fixer_fix env r False) =
     (fixErrs (fixer_fix env r False) = [] \<and> Lint env (rep (fixer_fix env r False)) = [])"
proof -
  define st where "st = fix_refs env False (fix_aliases env (fix_symbols env False (fix_lint env (fix_init r))))"
  have "fixed_inv st" unfolding st_def
    by (intro fixed_inv_refs fixed_inv_aliases fixed_inv_symbols fixed_inv_lint fixed_inv_init)
  moreover have "fixer_fix env r False = fix_remaining env False st"
    by (simp add: fixer_fix_def st_def)
  ultimately show ?thesis by (simp add: fix_remaining_False fixed_inv_def)
qed


section \<open>Properties of the Symbol Refresher\<close>

fun call_module :: "call \<Rightarrow> nat option" where
  "call_module (Call_Exported i j) = Some i"
| "call_module c = None"

lemma checkPackages_module:
  "list_all (\<lambda>c. call_module c = Some i) (fst (snd (checkPackages env rid i m before ps)))"
  by (induction ps arbitrary: before) (simp_all add: Let_def case_prod_beta split: sum.splits)

lemma checkPackages_length:
  "length (fst (checkPackages env rid i m before ps)) = length before + length ps"
  by (induction ps arbitrary: before) (simp_all add: Let_def case_prod_beta split: sum.splits)

lemma checkModule_module:
  "list_all (\<lambda>c. call_module c = Some i) (fst (snd (checkModule env rid i m)))"
  using checkPackages_module [of i env rid m "[]" "Module.Packages m"]
  by (simp add: checkModule_def Let_def case_prod_beta split: sum.splits)

definition gated :: "'a symbols_env_scheme \<Rightarrow> Module \<Rightarrow> bool" where
  "gated env m =
     (IsFirstParty env m
      \<and> (semverForGoVersion (runtime_Version env) = ''''
         \<or> osvutils_AffectsSemver env (AffectedRanges (Versions m))
              (semverForGoVersion (runtime_Version env)) = Inr False))"

lemma checkModule_gated:
  assumes "gated env m"
  shows "checkModule env rid i m =
           (m, [],
            case osvutils_AffectsSemver env (AffectedRanges (Versions m))
                   (semverForGoVersion (runtime_Version env)) of
              Inl err \<Rightarrow> Some err | Inr affected \<Rightarrow> None)"
  using assms by (auto simp: gated_def checkModule_def Let_def split: sum.splits)

lemma checkModules_length:
  "length (fst (checkModules env rid k ms)) = length ms"
  by (induction ms arbitrary: k) (simp_all add: case_prod_beta split: option.splits)

lemma checkModules_range:
  "list_all (\<lambda>c. \<exists>a. call_module c = Some a \<and> k \<le> a) (fst (snd (checkModules env rid k ms)))"
proof (induction ms arbitrary: k)
  case Nil
  show ?case by simp
next
  case (Cons m ms)
  have a: "list_all (\<lambda>c. \<exists>a. call_module c = Some a \<and> k \<le> a) (fst (snd (checkModule env rid k m)))"
    using checkModule_module [of k env rid m] by (simp add: list_all_iff)
  have b: "list_all (\<lambda>c. \<exists>a. call_module c = Some a \<and> k \<le> a) (fst (snd (checkModules env rid (Suc k) ms)))"
    using Cons [of "Suc k"] by (auto simp: list_all_iff)
  from a b show ?case by (simp add: case_prod_beta split: option.splits)
qed

lemma checkModules_gated:
  assumes "n < length ms" and "gated env (ms ! n)"
  shows "fst (checkModules env rid k ms) ! n = ms ! n
         \<and> list_all (\<lambda>c. call_module c \<noteq> Some (k + n)) (fst (snd (checkModules env rid k ms)))"
  using assms
proof (induction ms arbitrary: k n)
  case Nil
  then show ?case by simp
next
  case (Cons m ms)
  show ?case
  proof (cases n)
    case 0
    with Cons.prems have g: "gated env m" by simp
    have later: "list_all (\<lambda>c. call_module c \<noteq> Some k) (fst (snd (checkModules env rid (Suc k) ms)))"
      using checkModules_range [of "Suc k" env rid ms] by (auto simp: list_all_iff)
    from 0 later show ?thesis
      by (simp add: checkModule_gated [OF g] case_prod_beta split: sum.splits)
  next
    case (Suc n')
    with Cons.prems have n': "n' < length ms" and g: "gated env (ms ! n')" by simp_all
    from Cons.IH [OF n' g, of "Suc k"]
    have ih: "fst (checkModules env rid (Suc k) ms) ! n' = ms ! n'"
      "list_all (\<lambda>c. call_module c \<noteq> Some (k + n)) (fst (snd (checkModules env rid (Suc k) ms)))"
      using Suc by simp_all
    have here: "list_all (\<lambda>c. call_module c \<noteq> Some (k + n)) (fst (snd (checkModule env rid k m)))"
      using checkModule_module [of k env rid m] Suc by (auto simp: list_all_iff)
    from ih here Suc n' show ?thesis
      by (simp add: case_prod_beta split: option.splits)
  qed
qed


lemma checkModules_append:
  assumes "checkModules env rid k pre = (pre', cs1, None)"
  shows "checkModules env rid k (pre @ ms) =
           (case checkModules env rid (k + length pre) ms of
              (ms', cs2, e) \<Rightarrow> (pre' @ ms', cs1 @ cs2, e))"
  using assms
proof (induction pre arbitrary: k pre' cs1)
  case Nil
  then show ?case by (simp add: case_prod_beta)
next
  case (Cons m pre)
  obtain m' c e where cm: "checkModule env rid k m = (m', c, e)" by (cases "checkModule env rid k m")
  obtain p' c' e' where cms: "checkModules env rid (Suc k) pre = (p', c', e')"
    by (cases "checkModules env rid (Suc k) pre")
  from Cons.prems cm have e: "e = None" by (auto split: option.splits prod.splits)
  from Cons.prems cm cms e have eq: "pre' = m' # p'" "cs1 = c @ c'" "e' = None" by simp_all
  from Cons.IH [of "Suc k" p' c'] cms eq
  have "checkModules env rid (Suc k) (pre @ ms) =
          (case checkModules env rid (Suc k + length pre) ms of
             (ms', cs2, e) \<Rightarrow> (p' @ ms', c' @ cs2, e))" by simp
  with cm e eq show ?case by (simp add: case_prod_beta)
qed

lemma checkModules_abort:
  assumes "checkModules env rid k pre = (pre', cs1, None)"
    and "checkModule env rid (k + length pre) m = (m', cs2, Some err)"
  shows "checkModules env rid k (pre @ m # post) = (pre' @ m' # post, cs1 @ cs2, Some err)"
  by (simp add: checkModules_append [OF assms(1)] assms(2))

lemma fix_remaining_fields:
  "fixErrs (fix_remaining env addNotes st) = fixErrs st"
  "fixed (fix_remaining env addNotes st) \<Longrightarrow> fixed st"
  by (auto simp: fix_remaining_def Let_def split: prod.splits if_splits)


text \<open>
  The conditions under which the call of \<open>symbols.Exported\<close> for package \<open>p\<close> is the
  first one that fails, in terms of the report and the collaborators only. The module
  passed to \<open>symbols.Exported\<close> is the module with the packages as they are at the time
  of the call, so the outcome of the call is asked for whatever these packages are.
  \<open>export_fails\<close>: the package is not marked to be skipped and the call for it fails.
  \<open>export_passes\<close>: the package is marked to be skipped or the call for it succeeds.
  \<open>refresh_runs\<close>: the version gate lets the module through. \<open>module_passes\<close>: the
  module is skipped by the version gate, or it is let through and all its packages
  pass.
\<close>

definition export_fails :: "'a symbols_env_scheme \<Rightarrow> Module \<Rightarrow> Package \<Rightarrow> error \<Rightarrow> bool" where
  "export_fails env m p e =
     (SkipFix p = ''''
      \<and> (\<forall>ps. symbols_Exported env (m\<lparr>Module.Packages := ps\<rparr>) p = Inl e))"

definition export_passes :: "'a symbols_env_scheme \<Rightarrow> Module \<Rightarrow> Package \<Rightarrow> bool" where
  "export_passes env m q =
     (SkipFix q \<noteq> ''''
      \<or> (\<forall>ps. \<exists>syms. symbols_Exported env (m\<lparr>Module.Packages := ps\<rparr>) q = Inr syms))"

definition refresh_runs :: "'a symbols_env_scheme \<Rightarrow> Module \<Rightarrow> bool" where
  "refresh_runs env m =
     (\<not> IsFirstParty env m
      \<or> (semverForGoVersion (runtime_Version env) \<noteq> ''''
         \<and> osvutils_AffectsSemver env (AffectedRanges (Versions m))
              (semverForGoVersion (runtime_Version env)) = Inr True))"

definition module_passes :: "'a symbols_env_scheme \<Rightarrow> Module \<Rightarrow> bool" where
  "module_passes env m =
     ((IsFirstParty env m
       \<and> (\<exists>affected.
             osvutils_AffectsSemver env (AffectedRanges (Versions m))
               (semverForGoVersion (runtime_Version env)) = Inr affected
             \<and> (semverForGoVersion (runtime_Version env) = '''' \<or> \<not> affected)))
      \<or> (refresh_runs env m \<and> list_all (export_passes env m) (Module.Packages m)))"

lemma checkPackages_pass:
  assumes "list_all (export_passes env m) qs"
  shows "\<exists>qs' cs. length qs' = length qs
           \<and> list_all (\<lambda>c. \<exists>b. c = Call_Exported i b \<and> b < length before + length qs) cs
           \<and> checkPackages env rid i m before qs = (before @ qs', cs, None)"
  using assms
proof (induction qs arbitrary: before)
  case Nil
  then show ?case by simp
next
  case (Cons q qs)
  from Cons.prems have q: "export_passes env m q" and qs: "list_all (export_passes env m) qs"
    by simp_all
  show ?case
  proof (cases "SkipFix q \<noteq> ''''")
    case True
    from Cons.IH [OF qs, of "before @ [q]"] obtain qs' cs where
      "length qs' = length qs"
      "list_all (\<lambda>c. \<exists>b. c = Call_Exported i b \<and> b < length (before @ [q]) + length qs) cs"
      "checkPackages env rid i m (before @ [q]) qs = ((before @ [q]) @ qs', cs, None)" by blast
    with True show ?thesis
      by (intro exI [of _ "q # qs'"] exI [of _ cs]) simp
  next
    case False
    with q obtain syms where
      ex: "symbols_Exported env (m\<lparr>Module.Packages := before @ q # qs\<rparr>) q = Inr syms"
      by (auto simp: export_passes_def)
    define q' where "q' = (if removeExcluded rid syms (ExcludedSymbols q) \<noteq> DerivedSymbols q
        then q\<lparr>DerivedSymbols := removeExcluded rid syms (ExcludedSymbols q)\<rparr> else q)"
    from Cons.IH [OF qs, of "before @ [q']"] obtain qs' cs where
      l: "length qs' = length qs" and
      c: "list_all (\<lambda>c. \<exists>b. c = Call_Exported i b \<and> b < length (before @ [q']) + length qs) cs" and
      r: "checkPackages env rid i m (before @ [q']) qs = ((before @ [q']) @ qs', cs, None)" by blast
    from False ex r have "checkPackages env rid i m before (q # qs) =
        (before @ q' # qs', Call_Exported i (length before) # cs, None)"
      by (simp add: Let_def q'_def)
    with l c show ?thesis
      by (intro exI [of _ "q' # qs'"] exI [of _ "Call_Exported i (length before) # cs"]) simp
  qed
qed

lemma checkPackages_fail:
  assumes "list_all (export_passes env m) bef" and "export_fails env m p e"
  shows "\<exists>bef' cs. length bef' = length bef
           \<and> list_all (\<lambda>c. \<exists>b. c = Call_Exported i b \<and> b < length before + length bef) cs
           \<and> checkPackages env rid i m before (bef @ p # aft) =
               (before @ bef' @ p # aft,
                cs @ [Call_Exported i (length before + length bef)],
                Some (PackageError (Package p) e))"
  using assms(1)
proof (induction bef arbitrary: before)
  case Nil
  from assms(2) have "SkipFix p = ''''"
    "symbols_Exported env (m\<lparr>Module.Packages := before @ p # aft\<rparr>) p = Inl e"
    by (simp_all add: export_fails_def)
  then show ?case by simp
next
  case (Cons q qs)
  from Cons.prems have q: "export_passes env m q" and qs: "list_all (export_passes env m) qs"
    by simp_all
  show ?case
  proof (cases "SkipFix q \<noteq> ''''")
    case True
    from Cons.IH [OF qs, of "before @ [q]"] obtain bef' cs where
      "length bef' = length qs"
      "list_all (\<lambda>c. \<exists>b. c = Call_Exported i b \<and> b < length (before @ [q]) + length qs) cs"
      "checkPackages env rid i m (before @ [q]) (qs @ p # aft) =
         ((before @ [q]) @ bef' @ p # aft,
          cs @ [Call_Exported i (length (before @ [q]) + length qs)],
          Some (PackageError (Package p) e))" by blast
    with True show ?thesis
      by (intro exI [of _ "q # bef'"] exI [of _ cs]) simp
  next
    case False
    with q obtain syms where
      ex: "symbols_Exported env (m\<lparr>Module.Packages := before @ q # qs @ p # aft\<rparr>) q = Inr syms"
      by (auto simp: export_passes_def)
    define q' where "q' = (if removeExcluded rid syms (ExcludedSymbols q) \<noteq> DerivedSymbols q
        then q\<lparr>DerivedSymbols := removeExcluded rid syms (ExcludedSymbols q)\<rparr> else q)"
    from Cons.IH [OF qs, of "before @ [q']"] obtain bef' cs where
      l: "length bef' = length qs" and
      c: "list_all (\<lambda>c. \<exists>b. c = Call_Exported i b \<and> b < length (before @ [q']) + length qs) cs" and
      r: "checkPackages env rid i m (before @ [q']) (qs @ p # aft) =
         ((before @ [q']) @ bef' @ p # aft,
          cs @ [Call_Exported i (length (before @ [q']) + length qs)],
          Some (PackageError (Package p) e))" by blast
    from False ex r have "checkPackages env rid i m before ((q # qs) @ p # aft) =
        (before @ (q' # bef') @ p # aft,
         (Call_Exported i (length before) # cs) @ [Call_Exported i (length before + length (q # qs))],
         Some (PackageError (Package p) e))"
      by (simp add: Let_def q'_def)
    with l c show ?thesis
      by (intro exI [of _ "q' # bef'"] exI [of _ "Call_Exported i (length before) # cs"]) simp
  qed
qed

lemma checkModule_pass:
  assumes "module_passes env m"
  shows "\<exists>m' cs. list_all (\<lambda>c. call_module c = Some i) cs
           \<and> checkModule env rid i m = (m', cs, None)"
proof -
  from assms consider
    (skip) affected where "IsFirstParty env m"
      "osvutils_AffectsSemver env (AffectedRanges (Versions m))
         (semverForGoVersion (runtime_Version env)) = Inr affected"
      "semverForGoVersion (runtime_Version env) = '''' \<or> \<not> affected"
    | (run) "refresh_runs env m" "list_all (export_passes env m) (Module.Packages m)"
    by (auto simp: module_passes_def)
  then show ?thesis
  proof cases
    case skip
    then show ?thesis by (auto simp: checkModule_def Let_def)
  next
    case run
    from checkPackages_pass [OF run(2), of i "[]" rid] obtain qs' cs where
      r: "checkPackages env rid i m [] (Module.Packages m) = (qs', cs, None)" by auto
    have c: "list_all (\<lambda>c. call_module c = Some i) cs"
      using checkPackages_module [of i env rid m "[]" "Module.Packages m"] r by simp
    from run(1) r have "checkModule env rid i m = (m\<lparr>Module.Packages := qs'\<rparr>, cs, None)"
      by (auto simp: checkModule_def refresh_runs_def Let_def)
    with c show ?thesis by blast
  qed
qed

lemma checkModule_fail:
  assumes "refresh_runs env m" and "Module.Packages m = bef @ p # aft"
    and "list_all (export_passes env m) bef" and "export_fails env m p e"
  shows "\<exists>bef' cs. length bef' = length bef
           \<and> list_all (\<lambda>c. \<exists>b. c = Call_Exported i b \<and> b < length bef) cs
           \<and> checkModule env rid i m =
               (m\<lparr>Module.Packages := bef' @ p # aft\<rparr>,
                cs @ [Call_Exported i (length bef)],
                Some (PackageError (Package p) e))"
proof -
  from checkPackages_fail [OF assms(3,4), of i "[]" rid aft] obtain bef' cs where
    l: "length bef' = length bef" and
    c: "list_all (\<lambda>c. \<exists>b. c = Call_Exported i b \<and> b < length bef) cs" and
    r: "checkPackages env rid i m [] (bef @ p # aft) =
          (bef' @ p # aft, cs @ [Call_Exported i (length bef)],
           Some (PackageError (Package p) e))" by auto
  from assms(1,2) r have "checkModule env rid i m =
      (m\<lparr>Module.Packages := bef' @ p # aft\<rparr>, cs @ [Call_Exported i (length bef)],
       Some (PackageError (Package p) e))"
    by (auto simp: checkModule_def refresh_runs_def Let_def)
  with l c show ?thesis by blast
qed

lemma checkModules_pass:
  assumes "list_all (module_passes env) pre"
  shows "\<exists>pre' cs. length pre' = length pre
           \<and> list_all (\<lambda>c. \<exists>a. call_module c = Some a \<and> a < k + length pre) cs
           \<and> checkModules env rid k pre = (pre', cs, None)"
  using assms
proof (induction pre arbitrary: k)
  case Nil
  then show ?case by simp
next
  case (Cons m pre)
  from Cons.prems have m: "module_passes env m" and pre: "list_all (module_passes env) pre"
    by simp_all
  from checkModule_pass [OF m, of k rid] obtain m' cs where
    c: "list_all (\<lambda>c. call_module c = Some k) cs" and
    r: "checkModule env rid k m = (m', cs, None)" by blast
  from Cons.IH [OF pre, of "Suc k"] obtain pre' cs' where
    l: "length pre' = length pre" and
    c': "list_all (\<lambda>c. \<exists>a. call_module c = Some a \<and> a < Suc k + length pre) cs'" and
    r': "checkModules env rid (Suc k) pre = (pre', cs', None)" by blast
  from c have "list_all (\<lambda>c. \<exists>a. call_module c = Some a \<and> a < k + length (m # pre)) cs"
    by (auto simp: list_all_iff)
  with c' l r r' show ?case
    by (intro exI [of _ "m' # pre'"] exI [of _ "cs @ cs'"]) simp
qed

lemma checkSymbols_fail:
  assumes "\<not> IsExcluded env r"
    and "Modules r = pre @ m # post"
    and "list_all (module_passes env) pre"
    and "refresh_runs env m"
    and "Module.Packages m = bef @ p # aft"
    and "list_all (export_passes env m) bef"
    and "export_fails env m p e"
  shows "\<exists>pre' bef' cs. length pre' = length pre \<and> length bef' = length bef
           \<and> list_all (\<lambda>c. \<exists>a b. c = Call_Exported a b
                  \<and> (a < length pre \<or> (a = length pre \<and> b < length bef))) cs
           \<and> checkSymbols env r =
               (r\<lparr>Modules := pre' @ m\<lparr>Module.Packages := bef' @ p # aft\<rparr> # post\<rparr>,
                cs @ [Call_Exported (length pre) (length bef)],
                Some (PackageError (Package p) e))"
proof -
  from checkModules_pass [OF assms(3), of 0 "Report.ID r"] obtain pre' cs1 where
    l1: "length pre' = length pre" and
    c1: "list_all (\<lambda>c. \<exists>a. call_module c = Some a \<and> a < length pre) cs1" and
    r1: "checkModules env (Report.ID r) 0 pre = (pre', cs1, None)" by auto
  from checkModule_fail [OF assms(4-7), of "length pre" "Report.ID r"] obtain bef' cs2 where
    l2: "length bef' = length bef" and
    c2: "list_all (\<lambda>c. \<exists>b. c = Call_Exported (length pre) b \<and> b < length bef) cs2" and
    r2: "checkModule env (Report.ID r) (0 + length pre) m =
          (m\<lparr>Module.Packages := bef' @ p # aft\<rparr>,
           cs2 @ [Call_Exported (length pre) (length bef)],
           Some (PackageError (Package p) e))" by auto
  have b1: "list_all (\<lambda>c. \<exists>a b. c = Call_Exported a b
                  \<and> (a < length pre \<or> (a = length pre \<and> b < length bef))) cs1"
    unfolding list_all_iff
  proof
    fix c assume "c \<in> set cs1"
    with c1 obtain a where "call_module c = Some a" "a < length pre" by (auto simp: list_all_iff)
    then show "\<exists>a b. c = Call_Exported a b
                  \<and> (a < length pre \<or> (a = length pre \<and> b < length bef))"
      by (cases c) simp_all
  qed
  from c2 have b2: "list_all (\<lambda>c. \<exists>a b. c = Call_Exported a b
                  \<and> (a < length pre \<or> (a = length pre \<and> b < length bef))) cs2"
    by (auto simp: list_all_iff)
  from checkModules_abort [OF r1 r2, of post] assms(1,2)
  have "checkSymbols env r =
      (r\<lparr>Modules := pre' @ m\<lparr>Module.Packages := bef' @ p # aft\<rparr> # post\<rparr>,
       (cs1 @ cs2) @ [Call_Exported (length pre) (length bef)],
       Some (PackageError (Package p) e))"
    by (simp add: checkSymbols_def)
  with l1 l2 b1 b2 show ?thesis
    by (intro exI [of _ pre'] exI [of _ bef'] exI [of _ "cs1 @ cs2"]) simp
qed

lemma fixer_fix_symbol_error:
  assumes "\<not> skipSymbols env"
    and "checkSymbols env (if force env \<or> Lint env r \<noteq> [] then Fix env r else r) =
           (r1, cs, Some err)"
  shows "let r2 = (if addNotes then AddNote env r1 (PackageOrSymbolError err) else r1);
             r3 = (if skipAlias env then r2 else snd (addMissingAliases env r2));
             st = fixer_fix env r addNotes
         in \<not> fixed st
            \<and> fixErrs st =
                PackageOrSymbolError err # concat (map (ref_defect env) (Report.References r3))
            \<and> calls st =
                Call_Lint # (if force env \<or> Lint env r \<noteq> [] then [Call_Fix] else [])
                @ cs
                @ (if skipAlias env then [] else [Call_addMissingAliases])
                @ map (\<lambda>ref. Call_Head (URL ref)) (Report.References r3)
                @ [if addNotes then Call_LintAsNotes else Call_Lint]"
proof -
  define r2 where "r2 = (if addNotes then AddNote env r1 (PackageOrSymbolError err) else r1)"
  define r3 where "r3 = (if skipAlias env then r2 else snd (addMissingAliases env r2))"
  define lc where "lc = Call_Lint # (if force env \<or> Lint env r \<noteq> [] then [Call_Fix] else [])"
  have s1: "fix_lint env (fix_init r) =
      \<lparr>rep = (if force env \<or> Lint env r \<noteq> [] then Fix env r else r), fixed = True,
       fixErrs = [], calls = lc\<rparr>"
    by (simp add: fix_lint_def fix_init_def Let_def lc_def)
  have s2: "fix_symbols env addNotes (fix_lint env (fix_init r)) =
      \<lparr>rep = r2, fixed = False, fixErrs = [PackageOrSymbolError err], calls = lc @ cs\<rparr>"
    unfolding s1 using assms by (simp add: fix_symbols_def fixErr_def r2_def)
  have s3: "fix_aliases env (fix_symbols env addNotes (fix_lint env (fix_init r))) =
      \<lparr>rep = r3, fixed = False, fixErrs = [PackageOrSymbolError err],
       calls = lc @ cs @ (if skipAlias env then [] else [Call_addMissingAliases])\<rparr>"
    unfolding s2 by (simp add: fix_aliases_def r3_def case_prod_beta)
  define s4 where "s4 = fix_refs env addNotes
      (fix_aliases env (fix_symbols env addNotes (fix_lint env (fix_init r))))"
  have f: "fixer_fix env r addNotes = fix_remaining env addNotes s4"
    by (simp add: fixer_fix_def s4_def)
  have a: "\<not> fixed s4" unfolding s4_def s3 by (simp add: fix_refs_def checkRefs_fixed)
  have b: "fixErrs s4 =
      PackageOrSymbolError err # concat (map (ref_defect env) (Report.References r3))"
    unfolding s4_def s3 by (simp add: fix_refs_def checkRefs_fixErrs)
  have c: "calls s4 = lc @ cs @ (if skipAlias env then [] else [Call_addMissingAliases])
      @ map (\<lambda>ref. Call_Head (URL ref)) (Report.References r3)"
    unfolding s4_def s3 by (simp add: fix_refs_calls)
  from a have a': "\<not> fixed (fixer_fix env r addNotes)"
    unfolding f using fix_remaining_fields(2) by blast
  from a' b c show ?thesis
    unfolding Let_def r2_def [symmetric] r3_def [symmetric]
    by (simp add: f fix_remaining_fields(1) fix_remaining_calls lc_def)
qed

text \<open>Concrete reports and collaborators, used in the instances below.\<close>

definition pkg_a :: Package where
  "pkg_a = \<lparr>Package = ''example.com/a/pkg'', Package.GOOS = [], Package.GOARCH = [],
            Package.Symbols = [], DerivedSymbols = [], ExcludedSymbols = [], SkipFix = ''''\<rparr>"

definition pkg_b :: Package where
  "pkg_b = \<lparr>Package = ''example.com/b/pkg'', Package.GOOS = [], Package.GOARCH = [],
            Package.Symbols = [], DerivedSymbols = [], ExcludedSymbols = [''G''], SkipFix = ''''\<rparr>"

definition pkg_http :: Package where
  "pkg_http = \<lparr>Package = ''net/http'', Package.GOOS = [], Package.GOARCH = [],
               Package.Symbols = [], DerivedSymbols = [''Old''], ExcludedSymbols = [],
               SkipFix = ''''\<rparr>"

definition mod_a :: Module where
  "mod_a = \<lparr>Module.Module = ''example.com/a'', Versions = [], VulnerableAt = ''1.0.0'',
            Module.Packages = [pkg_a]\<rparr>"

definition mod_b :: Module where
  "mod_b = \<lparr>Module.Module = ''example.com/b'', Versions = [], VulnerableAt = ''1.0.0'',
            Module.Packages = [pkg_b]\<rparr>"

definition mod_std :: Module where
  "mod_std = \<lparr>Module.Module = ''std'',
              Versions = [\<lparr>VersionRange.Introduced = '''', VersionRange.Fixed = ''1.20.0''\<rparr>],
              VulnerableAt = ''1.19.0'', Module.Packages = [pkg_http]\<rparr>"

definition report_ab :: Report where
  "report_ab = \<lparr>Report.ID = ''GO-2024-0001'', Modules = [mod_a, mod_b], Description = ''a flaw'',
                Report.Credits = [],
                Report.References = [\<lparr>Reference.Type = ''WEB'', URL = ''https://example.com/ok''\<rparr>],
                CVEs = [], CVEMetadata = None, Notes = []\<rparr>"

definition report_std :: Report where
  "report_std = report_ab\<lparr>Modules := [mod_std, mod_b]\<rparr>"

definition env0 :: fixer_env where
  "env0 = \<lparr>IsExcluded = (\<lambda>r. False),
           IsFirstParty = (\<lambda>m. Module.Module m = ''std''),
           runtime_Version = ''go1.21.3'',
           osvutils_AffectsSemver = (\<lambda>rs v. Inr (v = ''1.19.0'')),
           symbols_Exported =
             (\<lambda>m p. if Package p = ''example.com/a/pkg'' then Inl (Error ''cannot load package'')
                     else Inr [''F'', ''G'']),
           force = False, skipAlias = False, skipSymbols = False,
           Lint = (\<lambda>r. []),
           Fix = (\<lambda>r. r),
           LintAsNotes = (\<lambda>r. (False, r)),
           AddNote = (\<lambda>r msg. r\<lparr>Notes := Notes r @ [NoteTypeFix msg]\<rparr>),
           addMissingAliases = (\<lambda>r. (0, r)),
           http_Head =
             (\<lambda>u. if u = ''https://example.com/gone''
                  then Inr \<lparr>StatusCode = 404, Status = ''404 Not Found''\<rparr>
                  else if u = ''https://example.com/down'' then Inl (Error ''no such host'')
                  else Inr \<lparr>StatusCode = 200, Status = ''200 OK''\<rparr>),
           yamlReport_write = (\<lambda>r. None),
           yamlReport_writeDerived = (\<lambda>r. None)\<rparr>"


definition report_gone :: Report where
  "report_gone =
     report_ab\<lparr>Modules := [mod_b],
               Report.References := [\<lparr>Reference.Type = ''WEB'', URL = ''https://example.com/gone''\<rparr>]\<rparr>"


text \<open>
  Claim C2. Let module \<open>i\<close> of a report be first-party, and let the version parsed
  from the current toolchain tag be the empty string, or let the range check answer
  that this version is not within the affected ranges of the module. Then
  \<open>checkSymbols\<close> leaves module \<open>i\<close>, and so the derived symbols of all its packages,
  as it was, and makes no call of \<open>symbols.Exported\<close> for a package of module \<open>i\<close>. The
  loop body does nothing for that module: it goes on to the next module, unless the
  range check itself returned an error, which \<open>checkSymbols\<close> then returns.
\<close>

theorem checkSymbols_gate:
  assumes "i < length (Modules r)"
    and "IsFirstParty env (Modules r ! i)"
    and "semverForGoVersion (runtime_Version env) = ''''
         \<or> osvutils_AffectsSemver env (AffectedRanges (Versions (Modules r ! i)))
              (semverForGoVersion (runtime_Version env)) = Inr False"
  shows "length (Modules (fst (checkSymbols env r))) = length (Modules r)
         \<and> Modules (fst (checkSymbols env r)) ! i = Modules r ! i
         \<and> list_all (\<lambda>c. call_module c \<noteq> Some i) (fst (snd (checkSymbols env r)))
         \<and> checkModule env (Report.ID r) i (Modules r ! i) =
             (Modules r ! i, [],
              case osvutils_AffectsSemver env (AffectedRanges (Versions (Modules r ! i)))
                     (semverForGoVersion (runtime_Version env)) of
                Inl err \<Rightarrow> Some err | Inr affected \<Rightarrow> None)"
proof -
  from assms(2,3) have g: "gated env (Modules r ! i)" by (simp add: gated_def)
  from checkModules_gated [OF assms(1) g, of "Report.ID r" 0]
    checkModules_length [of env "Report.ID r" 0 "Modules r"]
    checkModule_gated [OF g, of "Report.ID r" i]
  show ?thesis by (simp add: checkSymbols_def case_prod_beta)
qed


theorem checkSymbols_gate_witness:
  "0 < length (Modules report_std)
   \<and> IsFirstParty env0 (Modules report_std ! 0)
   \<and> osvutils_AffectsSemver env0 (AffectedRanges (Versions (Modules report_std ! 0)))
        (semverForGoVersion (runtime_Version env0)) = Inr False
   \<and> Modules (fst (checkSymbols env0 report_std)) ! 0 = mod_std
   \<and> fst (snd (checkSymbols env0 report_std)) = [Call_Exported 1 0]
   \<and> list_all (\<lambda>c. call_module c \<noteq> Some 0) (fst (snd (checkSymbols env0 report_std)))
   \<and> checkModule env0 (Report.ID report_std) 0 (Modules report_std ! 0) = (mod_std, [], None)"
proof -
  have h1: "0 < length (Modules report_std)" by (simp add: report_std_def)
  have m: "Modules report_std ! 0 = mod_std" by (simp add: report_std_def)
  have h2: "IsFirstParty env0 (Modules report_std ! 0)"
    by (simp add: m) (simp add: env0_def mod_std_def)
  have h3: "osvutils_AffectsSemver env0 (AffectedRanges (Versions (Modules report_std ! 0)))
        (semverForGoVersion (runtime_Version env0)) = Inr False"
    by code_simp
  have c: "fst (snd (checkSymbols env0 report_std)) = [Call_Exported 1 0]" by code_simp
  from checkSymbols_gate [OF h1 h2 disjI2 [OF h3]] h1 h2 h3 m c show ?thesis by simp
qed



text \<open>
  A report whose second module is first-party and within the affected range of the
  current version, and in which the call for the second package of that module fails.
\<close>

definition pkg_cgo :: Package where
  "pkg_cgo = \<lparr>Package = ''runtime/cgo'', Package.GOOS = [], Package.GOARCH = [],
              Package.Symbols = [], DerivedSymbols = [], ExcludedSymbols = [], SkipFix = ''''\<rparr>"

definition pkg_os :: Package where
  "pkg_os = \<lparr>Package = ''os'', Package.GOOS = [], Package.GOARCH = [],
             Package.Symbols = [], DerivedSymbols = [], ExcludedSymbols = [], SkipFix = ''''\<rparr>"

definition mod_std2 :: Module where
  "mod_std2 = mod_std\<lparr>Module.Packages := [pkg_http, pkg_cgo, pkg_os]\<rparr>"

definition report_cgo :: Report where
  "report_cgo = report_ab\<lparr>Modules := [mod_b, mod_std2, mod_b]\<rparr>"

definition env1 :: fixer_env where
  "env1 = env0\<lparr>runtime_Version := ''go1.19'',
               symbols_Exported :=
                 (\<lambda>m p. if Package p = ''runtime/cgo'' then Inl (Error ''cannot load package'')
                         else Inr [''F'', ''G''])\<rparr>"

definition first_failure ::
  "'a symbols_env_scheme \<Rightarrow> Report \<Rightarrow> Module list \<Rightarrow> Module \<Rightarrow> Module list
    \<Rightarrow> Package list \<Rightarrow> Package \<Rightarrow> Package list \<Rightarrow> error \<Rightarrow> bool" where
  "first_failure env r pre m post bef p aft e =
     (\<not> IsExcluded env r
      \<and> Modules r = pre @ m # post
      \<and> list_all (module_passes env) pre
      \<and> refresh_runs env m
      \<and> Module.Packages m = bef @ p # aft
      \<and> list_all (export_passes env m) bef
      \<and> export_fails env m p e)"



section \<open>Properties of \<open>fixAndWriteAll\<close>\<close>

text \<open>
  Claim C1. \<open>fixAndWriteAll\<close> calls \<open>write\<close> on the report as \<open>fixer.fix\<close> left it, as its
  first call after \<open>fixer.fix\<close>, which itself never writes, and whatever the result of
  \<open>fixer.fix\<close> is. When that result is false and the write succeeds, \<open>fixAndWriteAll\<close>
  returns the error "requires manual review" after this one write. The result of
  \<open>fixer.fix\<close> is false exactly when \<open>fixErr\<close> was called or the last lint found defects.
\<close>

theorem fixAndWriteAll_writes_first:
  "(case fixAndWriteAll env r of
      (e, r', cs) \<Rightarrow>
        r' = rep (fixer_fix env r False)
        \<and> filter is_write (calls (fixer_fix env r False)) = []
        \<and> (\<exists>rest. cs = calls (fixer_fix env r False) @ Call_write r' # rest))
   \<and> (\<not> fixed (fixer_fix env r False)
        \<and> yamlReport_write env (rep (fixer_fix env r False)) = None
      \<longrightarrow> fixAndWriteAll env r =
            (Some (ManualReview (Report.ID (rep (fixer_fix env r False)))),
             rep (fixer_fix env r False),
             calls (fixer_fix env r False) @ [Call_write (rep (fixer_fix env r False))]))
   \<and> fixed (fixer_fix env r False) =
       (fixErrs (fixer_fix env r False) = []
        \<and> Lint env (rep (fixer_fix env r False)) = [])"
proof (intro conjI)
  show "fixed (fixer_fix env r False) =
       (fixErrs (fixer_fix env r False) = []
        \<and> Lint env (rep (fixer_fix env r False)) = [])"
    by (rule fixer_fix_fixed)
qed (auto simp: fixAndWriteAll_def Let_def fixer_fix_no_write split: option.splits)


theorem fixAndWriteAll_writes_first_witness:
  "\<not> fixed (fixer_fix env0 report_ab False)
   \<and> yamlReport_write env0 (rep (fixer_fix env0 report_ab False)) = None
   \<and> fixAndWriteAll env0 report_ab =
       (Some (ManualReview ''GO-2024-0001''), report_ab,
        [Call_Lint, Call_Exported 0 0, Call_addMissingAliases,
         Call_Head ''https://example.com/ok'', Call_Lint, Call_write report_ab])"
proof -
  have h1: "\<not> fixed (fixer_fix env0 report_ab False)" by code_simp
  have h2: "yamlReport_write env0 (rep (fixer_fix env0 report_ab False)) = None"
    by (simp add: env0_def)
  have r: "rep (fixer_fix env0 report_ab False) = report_ab" by code_simp
  have c: "calls (fixer_fix env0 report_ab False) =
      [Call_Lint, Call_Exported 0 0, Call_addMissingAliases,
       Call_Head ''https://example.com/ok'', Call_Lint]" by code_simp
  have i: "Report.ID report_ab = ''GO-2024-0001''" by (simp add: report_ab_def)
  from fixAndWriteAll_writes_first [of env0 report_ab] h1 h2
  have "fixAndWriteAll env0 report_ab =
            (Some (ManualReview (Report.ID (rep (fixer_fix env0 report_ab False)))),
             rep (fixer_fix env0 report_ab False),
             calls (fixer_fix env0 report_ab False) @ [Call_write (rep (fixer_fix env0 report_ab False))])"
    by blast
  with h1 h2 show ?thesis by (simp add: r c i)
qed


text \<open>
  Claim C10. \<open>fixAndWriteAll\<close> calls \<open>writeDerived\<close> if and only if the result of
  \<open>fixer.fix\<close> is true and writing the report succeeded. When the result is false and
  the write succeeded, it returns the error "requires manual review", and the write
  of the report is the only write.
\<close>

theorem fixAndWriteAll_writeDerived_iff:
  "list_ex is_writeDerived (snd (snd (fixAndWriteAll env r))) =
     (fixed (fixer_fix env r False)
      \<and> yamlReport_write env (rep (fixer_fix env r False)) = None)
   \<and> (\<not> fixed (fixer_fix env r False)
        \<and> yamlReport_write env (rep (fixer_fix env r False)) = None
      \<longrightarrow> fst (fixAndWriteAll env r) =
            Some (ManualReview (Report.ID (rep (fixer_fix env r False))))
          \<and> filter is_write (snd (snd (fixAndWriteAll env r))) =
            [Call_write (rep (fixer_fix env r False))])"
proof -
  have "filter is_writeDerived cs = []" if "filter is_write cs = []" for cs
    using that by (induction cs) (auto split: if_splits elim: is_writeDerived.elims)
  from this [OF fixer_fix_no_write [of env r False]]
  have "\<not> list_ex is_writeDerived (calls (fixer_fix env r False))"
    by (simp add: list_ex_iff filter_empty_conv)
  then show ?thesis
    by (auto simp: fixAndWriteAll_def Let_def fixer_fix_no_write split: option.splits)
qed

theorem fixAndWriteAll_writeDerived_iff_witness:
  "\<not> fixed (fixer_fix env0 report_gone False)
   \<and> yamlReport_write env0 (rep (fixer_fix env0 report_gone False)) = None
   \<and> fixErrs (fixer_fix env0 report_gone False) =
       [MayNotExistStatus ''https://example.com/gone'' ''404 Not Found'']
   \<and> fst (fixAndWriteAll env0 report_gone) = Some (ManualReview ''GO-2024-0001'')
   \<and> filter is_write (snd (snd (fixAndWriteAll env0 report_gone))) =
       [Call_write (rep (fixer_fix env0 report_gone False))]
   \<and> \<not> list_ex is_writeDerived (snd (snd (fixAndWriteAll env0 report_gone)))"
proof -
  have h1: "\<not> fixed (fixer_fix env0 report_gone False)" by code_simp
  have h2: "yamlReport_write env0 (rep (fixer_fix env0 report_gone False)) = None"
    by (simp add: env0_def)
  have e: "fixErrs (fixer_fix env0 report_gone False) =
       [MayNotExistStatus ''https://example.com/gone'' ''404 Not Found'']" by code_simp
  have i: "Report.ID (rep (fixer_fix env0 report_gone False)) = ''GO-2024-0001''" by code_simp
  from fixAndWriteAll_writeDerived_iff [of env0 report_gone] h1 h2 e i
  show ?thesis by simp
qed

end
